theory Spec2Isabelle
  imports Main "HOL-Library.Monad_Syntax"
begin

section \<open>Tenor dates of an FX pair: the embedding of \<open>backup/tenor_dates.py\<close>\<close>

text \<open>
  The class \<open>TenorDates\<close> holds one field, the six-character pair \<open>ccy\<close>; its methods
  are functions of that string, of the holiday calendars and of dates.

  \<^item> A \<open>datetime\<close> is represented by its proleptic Gregorian ordinal (what
    \<open>date.toordinal()\<close> returns: day 1 is 0001-01-01, a Monday). The time of day is carried
    along unchanged by every operation of the class and is left out. Day numbers are
    unbounded integers: the \<open>OverflowError\<close> of \<open>datetime\<close> outside the years 1..9999, that
    of \<open>timedelta\<close> beyond 999999999 days, and the range limits of the pandas and holidays
    libraries are not part of the model.
  \<^item> The holiday library is an oracle: \<open>hol code d\<close> is the truth value of
    \<open>d in holidays.country_holidays(code)\<close>.
  \<^item> An exception is a value of \<open>py_error\<close>; a method that may raise returns
    \<open>py_error + 'a\<close>.
  \<^item> The six walks recurse until a date is found, and the source sets no bound. They are
    embedded twice. On an unbounded stack a walk returns \<open>(py_error + 'a) option\<close>, where
    \<open>None\<close> stands for a recursion that never reaches a \<open>return\<close>; the methods built on
    the walks are embedded over these. Under the recursion limit of the interpreter a walk
    takes the number of calls that the stack still admits and raises \<open>RecursionError\<close>
    when they are used up (the functions named \<open>_lim\<close>); the two agree wherever the second
    does not raise \<open>RecursionError\<close>.
  \<^item> A \<open>str\<close> is a list of code points below 256.
\<close>

subsection \<open>Exceptions\<close>

text \<open>
  Modelled from the spec: the exception class \<open>InputError\<close>, imported from the module
  \<open>miscellaneous\<close>, which is not among the sources. The spec calls what
  \<open>expiry_from_tenor\<close> raises a parse error; it is taken as an exception that carries the
  message it is raised with, like the built-in ones. An \<open>assert\<close> that fails is an
  \<open>AssertionError\<close> with the message of the statement.
\<close>

datatype py_error =
    AssertionError string
  | KeyError string
  | IndexError
  | ValueError
  | RecursionError
  | InputError string

type_synonym date = int

type_synonym calendar = "string \<Rightarrow> date \<Rightarrow> bool"

type_synonym 'a res = "(py_error + 'a) option"

subsection \<open>The calendar arithmetic of \<open>datetime\<close>, \<open>pandas\<close> and \<open>relativedelta\<close>\<close>

text \<open>\<open>date.weekday()\<close> is \<open>(toordinal() + 6) % 7\<close>, Monday being 0;
  \<open>pd.bdate_range(date, date)\<close> is non-empty exactly from Monday to Friday.\<close>

definition weekday :: "date \<Rightarrow> int" where
  "weekday d = (d + 6) mod 7"

definition is_weekday :: "date \<Rightarrow> bool" where
  "is_weekday d = (weekday d < 5)"

definition is_leap :: "int \<Rightarrow> bool" where
  "is_leap y = (y mod 4 = 0 \<and> (y mod 100 \<noteq> 0 \<or> y mod 400 = 0))"

definition DAYS_IN_MONTH :: "int list" where
  "DAYS_IN_MONTH = [-1, 31, 28, 31, 30, 31, 30, 31, 31, 30, 31, 30, 31]"

definition DAYS_BEFORE_MONTH :: "int list" where
  "DAYS_BEFORE_MONTH = [-1, 0, 31, 59, 90, 120, 151, 181, 212, 243, 273, 304, 334]"

definition days_before_year :: "int \<Rightarrow> int" where
  "days_before_year year =
     (let y = year - 1 in y * 365 + y div 4 - y div 100 + y div 400)"

definition days_in_month :: "int \<Rightarrow> int \<Rightarrow> int" where
  "days_in_month year month =
     (if month = 2 \<and> is_leap year then 29 else DAYS_IN_MONTH ! nat month)"

definition days_before_month :: "int \<Rightarrow> int \<Rightarrow> int" where
  "days_before_month year month =
     DAYS_BEFORE_MONTH ! nat month + (if month > 2 \<and> is_leap year then 1 else 0)"

definition ymd2ord :: "int \<Rightarrow> int \<Rightarrow> int \<Rightarrow> date" where
  "ymd2ord year month day = days_before_year year + days_before_month year month + day"

text \<open>\<open>_ord2ymd\<close> of the standard library, line by line.\<close>

definition ord2ymd :: "date \<Rightarrow> int \<times> int \<times> int" where
  "ord2ymd ordinal =
     (let n = ordinal - 1;
          n400 = n div 146097; n = n mod 146097;
          year = n400 * 400 + 1;
          n100 = n div 36524; n = n mod 36524;
          n4 = n div 1461; n = n mod 1461;
          n1 = n div 365; n = n mod 365;
          year = year + n100 * 100 + n4 * 4 + n1
      in if n1 = 4 \<or> n100 = 4 then (year - 1, 12, 31)
         else
           (let leapyear = (n1 = 3 \<and> (n4 \<noteq> 24 \<or> n100 = 3));
                month = (n + 50) div 32;
                preceding = DAYS_BEFORE_MONTH ! nat month
                            + (if month > 2 \<and> leapyear then 1 else 0)
            in if preceding > n
               then (let month = month - 1;
                         preceding = preceding - (DAYS_IN_MONTH ! nat month
                                       + (if month = 2 \<and> leapyear then 1 else 0))
                     in (year, month, n - preceding + 1))
               else (year, month, n - preceding + 1)))"

definition year_of :: "date \<Rightarrow> int" where
  "year_of d = fst (ord2ymd d)"

definition month_of :: "date \<Rightarrow> int" where
  "month_of d = fst (snd (ord2ymd d))"

definition day_of :: "date \<Rightarrow> int" where
  "day_of d = snd (snd (ord2ymd d))"

text \<open>
  \<open>date + relativedelta(months = n)\<close>: the constructor normalises a month count beyond
  11 into years and months, keeping the sign; the addition moves the year and the month,
  wraps the month once into 1..12 and clamps the day to the length of the target month.
\<close>

definition add_months :: "date \<Rightarrow> int \<Rightarrow> date" where
  "add_months d n =
     (let s = (if n < 0 then - 1 else 1);
          years = (if \<bar>n\<bar> > 11 then ((n * s) div 12) * s else 0);
          months = (if \<bar>n\<bar> > 11 then ((n * s) mod 12) * s else n);
          year = year_of d + years;
          month = month_of d + months;
          year = (if month > 12 then year + 1 else if month < 1 then year - 1 else year);
          month = (if month > 12 then month - 12 else if month < 1 then month + 12 else month);
          day = min (days_in_month year month) (day_of d)
      in ymd2ord year month day)"

subsection \<open>Strings\<close>

text \<open>\<open>sub in s\<close>, \<open>s.replace(old, new)\<close> for a non-empty \<open>old\<close>, and \<open>s[i:j]\<close> for
  \<open>0 \<le> i \<le> j\<close>.\<close>

fun py_contains :: "string \<Rightarrow> string \<Rightarrow> bool" where
  "py_contains sub [] = (sub = [])"
| "py_contains sub (c # cs) = (take (length sub) (c # cs) = sub \<or> py_contains sub cs)"

function py_replace :: "string \<Rightarrow> string \<Rightarrow> string \<Rightarrow> string" where
  "py_replace old new [] = []"
| "py_replace old new (c # cs) =
     (if old \<noteq> [] \<and> take (length old) (c # cs) = old
      then new @ py_replace old new (drop (length old) (c # cs))
      else c # py_replace old new cs)"
  by pat_completeness auto
termination
  by (relation "measure (\<lambda>(old, new, s). length s)") (auto simp: neq_Nil_conv)

definition slice :: "nat \<Rightarrow> nat \<Rightarrow> string \<Rightarrow> string" where
  "slice i j s = take (j - i) (drop i s)"

subsection \<open>The class constants and the constructor\<close>

definition supported_ccy :: "string list" where
  "supported_ccy =
     [''USD'', ''GBP'', ''EUR'', ''JPY'', ''CHF'', ''AUD'', ''CAD'', ''NZD'', ''SEK'', ''NOK'']"

definition ccy_country_code :: "string \<rightharpoonup> string list" where
  "ccy_country_code = map_of
     [(''USD'', [''United States'', ''US'']),
      (''GBP'', [''United Kingdom'', ''GB'']),
      (''EUR'', [''Europe'', ''ECB'']),
      (''JPY'', [''Japan'', ''JP'']),
      (''CHF'', [''Switzerland'', ''CH'']),
      (''AUD'', [''Australia'', ''AU'']),
      (''CAD'', [''Canada'', ''CA'']),
      (''NZD'', [''New Zealand'', ''NZ'']),
      (''SEK'', [''Sweden'', ''SE'']),
      (''NOK'', [''Norway'', ''NO''])]"

definition init_message :: string where
  "init_message =
     ''ccy input must be in the form of 'CCY1CCY2'! Supported currencies: ''
     @ ''['USD', 'GBP', 'EUR', 'JPY', 'CHF', 'AUD', 'CAD', 'NZD', 'SEK', 'NOK']''"

text \<open>\<open>__init__\<close>: the two assertions on the pair. The object is its field \<open>ccy\<close>.\<close>

definition TenorDates :: "string \<Rightarrow> py_error + string" where
  "TenorDates ccy =
     (if length ccy = 6 \<and> slice 0 3 ccy \<in> set supported_ccy
           \<and> slice 3 6 ccy \<in> set supported_ccy
      then Inr ccy
      else Inl (AssertionError init_message))"

definition constructible :: "string \<Rightarrow> bool" where
  "constructible ccy = (TenorDates ccy = Inr ccy)"

subsection \<open>The three predicates\<close>

text \<open>\<open>is_business_day\<close>: the holiday calendars are looked up before the weekday is
  tested, so a failing lookup raises on every date.\<close>

definition is_business_day :: "calendar \<Rightarrow> string \<Rightarrow> date \<Rightarrow> py_error + bool" where
  "is_business_day hol self_ccy d =
     (if py_contains ''USD'' self_ccy then
        (let ccy = py_replace ''USD'' '''' self_ccy in
         case ccy_country_code ccy of
           None \<Rightarrow> Inl (KeyError ccy)
         | Some names \<Rightarrow> Inr (is_weekday d \<and> \<not> hol (names ! 1) d))
      else
        (let ccy1 = slice 0 3 self_ccy in
         case ccy_country_code ccy1 of
           None \<Rightarrow> Inl (KeyError ccy1)
         | Some names1 \<Rightarrow>
             (let ccy2 = slice 3 6 self_ccy in
              case ccy_country_code ccy2 of
                None \<Rightarrow> Inl (KeyError ccy2)
              | Some names2 \<Rightarrow>
                  Inr (is_weekday d \<and> \<not> hol (names1 ! 1) d \<and> \<not> hol (names2 ! 1) d))))"

definition is_valid_spot :: "calendar \<Rightarrow> string \<Rightarrow> date \<Rightarrow> py_error + bool" where
  "is_valid_spot hol self_ccy d =
     (case ccy_country_code ''USD'' of
        None \<Rightarrow> Inl (KeyError ''USD'')
      | Some names \<Rightarrow>
          (case is_business_day hol self_ccy d of
             Inl e \<Rightarrow> Inl e
           | Inr b \<Rightarrow> Inr (b \<and> \<not> hol (names ! 1) d)))"

definition is_valid_expiry :: "calendar \<Rightarrow> string \<Rightarrow> date \<Rightarrow> py_error + bool" where
  "is_valid_expiry hol self_ccy d =
     (let ccy1 = slice 0 3 self_ccy in
      case ccy_country_code ccy1 of
        None \<Rightarrow> Inl (KeyError ccy1)
      | Some names1 \<Rightarrow>
          (let ccy2 = slice 3 6 self_ccy in
           case ccy_country_code ccy2 of
             None \<Rightarrow> Inl (KeyError ccy2)
           | Some names2 \<Rightarrow>
               Inr (is_weekday d \<and> \<not> (day_of d = 1 \<and> month_of d = 1)
                    \<and> (\<not> hol (names1 ! 1) d \<or> \<not> hol (names2 ! 1) d))))"

subsection \<open>The six directional walks\<close>

text \<open>Each walk moves one day, tests its predicate and recurses on failure. An exception
  of the predicate leaves the walk; no clause bounds the recursion.\<close>

partial_function (option) next_business_day :: "calendar \<Rightarrow> string \<Rightarrow> date \<Rightarrow> date res" where
  "next_business_day hol self_ccy d =
     (let d = d + 1 in
      case is_business_day hol self_ccy d of
        Inl e \<Rightarrow> Some (Inl e)
      | Inr b \<Rightarrow> if b then Some (Inr d) else next_business_day hol self_ccy d)"

partial_function (option) prev_business_day :: "calendar \<Rightarrow> string \<Rightarrow> date \<Rightarrow> date res" where
  "prev_business_day hol self_ccy d =
     (let d = d - 1 in
      case is_business_day hol self_ccy d of
        Inl e \<Rightarrow> Some (Inl e)
      | Inr b \<Rightarrow> if b then Some (Inr d) else prev_business_day hol self_ccy d)"

partial_function (option) next_valid_spot :: "calendar \<Rightarrow> string \<Rightarrow> date \<Rightarrow> date res" where
  "next_valid_spot hol self_ccy d =
     (let d = d + 1 in
      case is_valid_spot hol self_ccy d of
        Inl e \<Rightarrow> Some (Inl e)
      | Inr b \<Rightarrow> if b then Some (Inr d) else next_valid_spot hol self_ccy d)"

partial_function (option) prev_valid_spot :: "calendar \<Rightarrow> string \<Rightarrow> date \<Rightarrow> date res" where
  "prev_valid_spot hol self_ccy d =
     (let d = d - 1 in
      case is_valid_spot hol self_ccy d of
        Inl e \<Rightarrow> Some (Inl e)
      | Inr b \<Rightarrow> if b then Some (Inr d) else prev_valid_spot hol self_ccy d)"

partial_function (option) next_valid_expiry :: "calendar \<Rightarrow> string \<Rightarrow> date \<Rightarrow> date res" where
  "next_valid_expiry hol self_ccy d =
     (let d = d + 1 in
      case is_valid_expiry hol self_ccy d of
        Inl e \<Rightarrow> Some (Inl e)
      | Inr b \<Rightarrow> if b then Some (Inr d) else next_valid_expiry hol self_ccy d)"

partial_function (option) prev_valid_expiry :: "calendar \<Rightarrow> string \<Rightarrow> date \<Rightarrow> date res" where
  "prev_valid_expiry hol self_ccy d =
     (let d = d - 1 in
      case is_valid_expiry hol self_ccy d of
        Inl e \<Rightarrow> Some (Inl e)
      | Inr b \<Rightarrow> if b then Some (Inr d) else prev_valid_expiry hol self_ccy d)"

subsection \<open>The six walks under the recursion limit\<close>

text \<open>
  The interpreter refuses a call that would exceed its recursion limit (1000 frames unless
  the program changes it) and raises \<open>RecursionError\<close>. The first argument is the number
  of calls of the walk that the stack still admits when the walk is entered: it depends
  on the limit, on the depth of the caller and on the frames that the predicate needs,
  and the limit bounds it. Every recursive call uses one of them up.
\<close>

fun next_business_day_lim :: "nat \<Rightarrow> calendar \<Rightarrow> string \<Rightarrow> date \<Rightarrow> py_error + date" where
  "next_business_day_lim 0 hol self_ccy d = Inl RecursionError"
| "next_business_day_lim (Suc frames) hol self_ccy d =
     (let d = d + 1 in
      case is_business_day hol self_ccy d of
        Inl e \<Rightarrow> Inl e
      | Inr b \<Rightarrow> if b then Inr d else next_business_day_lim frames hol self_ccy d)"

fun prev_business_day_lim :: "nat \<Rightarrow> calendar \<Rightarrow> string \<Rightarrow> date \<Rightarrow> py_error + date" where
  "prev_business_day_lim 0 hol self_ccy d = Inl RecursionError"
| "prev_business_day_lim (Suc frames) hol self_ccy d =
     (let d = d - 1 in
      case is_business_day hol self_ccy d of
        Inl e \<Rightarrow> Inl e
      | Inr b \<Rightarrow> if b then Inr d else prev_business_day_lim frames hol self_ccy d)"

fun next_valid_spot_lim :: "nat \<Rightarrow> calendar \<Rightarrow> string \<Rightarrow> date \<Rightarrow> py_error + date" where
  "next_valid_spot_lim 0 hol self_ccy d = Inl RecursionError"
| "next_valid_spot_lim (Suc frames) hol self_ccy d =
     (let d = d + 1 in
      case is_valid_spot hol self_ccy d of
        Inl e \<Rightarrow> Inl e
      | Inr b \<Rightarrow> if b then Inr d else next_valid_spot_lim frames hol self_ccy d)"

fun prev_valid_spot_lim :: "nat \<Rightarrow> calendar \<Rightarrow> string \<Rightarrow> date \<Rightarrow> py_error + date" where
  "prev_valid_spot_lim 0 hol self_ccy d = Inl RecursionError"
| "prev_valid_spot_lim (Suc frames) hol self_ccy d =
     (let d = d - 1 in
      case is_valid_spot hol self_ccy d of
        Inl e \<Rightarrow> Inl e
      | Inr b \<Rightarrow> if b then Inr d else prev_valid_spot_lim frames hol self_ccy d)"

fun next_valid_expiry_lim :: "nat \<Rightarrow> calendar \<Rightarrow> string \<Rightarrow> date \<Rightarrow> py_error + date" where
  "next_valid_expiry_lim 0 hol self_ccy d = Inl RecursionError"
| "next_valid_expiry_lim (Suc frames) hol self_ccy d =
     (let d = d + 1 in
      case is_valid_expiry hol self_ccy d of
        Inl e \<Rightarrow> Inl e
      | Inr b \<Rightarrow> if b then Inr d else next_valid_expiry_lim frames hol self_ccy d)"

fun prev_valid_expiry_lim :: "nat \<Rightarrow> calendar \<Rightarrow> string \<Rightarrow> date \<Rightarrow> py_error + date" where
  "prev_valid_expiry_lim 0 hol self_ccy d = Inl RecursionError"
| "prev_valid_expiry_lim (Suc frames) hol self_ccy d =
     (let d = d - 1 in
      case is_valid_expiry hol self_ccy d of
        Inl e \<Rightarrow> Inl e
      | Inr b \<Rightarrow> if b then Inr d else prev_valid_expiry_lim frames hol self_ccy d)"

subsection \<open>Spot and horizon\<close>

definition bind_res :: "'a res \<Rightarrow> ('a \<Rightarrow> 'b res) \<Rightarrow> 'b res" where
  "bind_res m f =
     (case m of None \<Rightarrow> None | Some (Inl e) \<Rightarrow> Some (Inl e) | Some (Inr x) \<Rightarrow> f x)"

definition fast_pairs :: "string list" where
  "fast_pairs = [''USDCAD'', ''USDTRY'', ''USDPHP'', ''USDRUB'']"

definition spot_from_horizon :: "calendar \<Rightarrow> string \<Rightarrow> date \<Rightarrow> date res" where
  "spot_from_horizon hol self_ccy horizon_date =
     (case is_business_day hol self_ccy horizon_date of
        Inl e \<Rightarrow> Some (Inl e)
      | Inr b \<Rightarrow>
          if \<not> b then Some (Inl (AssertionError ''Horizon date is not a business day!''))
          else if self_ccy \<in> set fast_pairs
          then next_valid_spot hol self_ccy horizon_date
          else bind_res (next_business_day hol self_ccy horizon_date)
                 (\<lambda>next_business_day. next_valid_spot hol self_ccy next_business_day))"

definition horizon_from_spot :: "calendar \<Rightarrow> string \<Rightarrow> date \<Rightarrow> date res" where
  "horizon_from_spot hol self_ccy spot_date =
     (case is_valid_spot hol self_ccy spot_date of
        Inl e \<Rightarrow> Some (Inl e)
      | Inr b \<Rightarrow>
          if \<not> b then Some (Inl (AssertionError ''Spot date is not valid!''))
          else if self_ccy \<in> set fast_pairs
          then prev_valid_expiry hol self_ccy spot_date
          else bind_res (prev_business_day hol self_ccy spot_date)
                 (\<lambda>prev_business_day. prev_valid_expiry hol self_ccy prev_business_day))"

subsection \<open>Tenor resolution\<close>

text \<open>
  \<open>int(s)\<close> for a \<open>str\<close>, as CPython computes it. The string is first brought to ASCII:
  a code point below 127 is kept, a white-space code point from 127 on (133 and 160 are
  the two below 256) becomes a blank, and any other becomes a question mark, which no
  literal contains (no code point from 127 to 255 is a decimal digit). Then the C
  white space (codes 9 to 13 and 32) is skipped at both ends, one sign is allowed, and the
  digits follow, separated by single underscores at most; more than 4300 digits, the
  default of \<open>sys.int_info\<close>, are refused. \<open>None\<close> stands for \<open>ValueError\<close>.
\<close>

definition to_ascii :: "char \<Rightarrow> char" where
  "to_ascii c =
     (if (of_char c :: nat) < 127 then c
      else if (of_char c :: nat) \<in> {133, 160} then CHR '' ''
      else CHR ''?'')"

definition is_space :: "char \<Rightarrow> bool" where
  "is_space c = (of_char c \<in> {9, 10, 11, 12, 13, 32 :: nat})"

definition is_digit :: "char \<Rightarrow> bool" where
  "is_digit c = (48 \<le> (of_char c :: nat) \<and> (of_char c :: nat) \<le> 57)"

definition strip :: "string \<Rightarrow> string" where
  "strip s = rev (dropWhile is_space (rev (dropWhile is_space s)))"

fun digits_ok :: "string \<Rightarrow> bool" where
  "digits_ok [] = False"
| "digits_ok [c] = is_digit c"
| "digits_ok (c # u # cs) =
     (is_digit c \<and> (if u = CHR ''_'' then digits_ok cs else digits_ok (u # cs)))"

definition digits_val :: "string \<Rightarrow> int" where
  "digits_val s =
     foldl (\<lambda>acc c. acc * 10 + (int (of_char c) - 48)) 0 (filter (\<lambda>c. c \<noteq> CHR ''_'') s)"

definition int_max_str_digits :: nat where
  "int_max_str_digits = 4300"

definition py_nat :: "string \<Rightarrow> int option" where
  "py_nat s =
     (if digits_ok s \<and> length (filter is_digit s) \<le> int_max_str_digits
      then Some (digits_val s) else None)"

definition py_int :: "string \<Rightarrow> int option" where
  "py_int s =
     (case strip (map to_ascii s) of
        [] \<Rightarrow> None
      | c # cs \<Rightarrow>
          if c = CHR ''-'' then map_option uminus (py_nat cs)
          else if c = CHR ''+'' then py_nat cs
          else py_nat (c # cs))"

text \<open>The loop \<open>while (delivery_date.month - spot_date.month) > n_months\<close>.\<close>

partial_function (option) roll_back ::
    "calendar \<Rightarrow> string \<Rightarrow> date \<Rightarrow> int \<Rightarrow> date \<Rightarrow> date res" where
  "roll_back hol self_ccy spot_date n_months delivery_date =
     (if month_of delivery_date - month_of spot_date > n_months
      then Option.bind (prev_valid_spot hol self_ccy delivery_date)
             (\<lambda>r. case r of
                     Inl e \<Rightarrow> Some (Inl e)
                   | Inr delivery_date \<Rightarrow>
                       roll_back hol self_ccy spot_date n_months delivery_date)
      else Some (Inr delivery_date))"

text \<open>The first half of the month and year branch of \<open>expiry_from_tenor\<close>: the spot date
  and the delivery date as they stand when the loop is left.\<close>

definition delivery_from_horizon ::
    "calendar \<Rightarrow> string \<Rightarrow> date \<Rightarrow> int \<Rightarrow> (date \<times> date) res" where
  "delivery_from_horizon hol self_ccy horizon_date n_months =
     bind_res (spot_from_horizon hol self_ccy horizon_date) (\<lambda>spot_date.
       let delivery_date = add_months spot_date n_months in
       bind_res
         (case is_valid_spot hol self_ccy delivery_date of
            Inl e \<Rightarrow> Some (Inl e)
          | Inr b \<Rightarrow> if \<not> b then next_valid_spot hol self_ccy delivery_date
                     else Some (Inr delivery_date))
         (\<lambda>delivery_date.
            bind_res (roll_back hol self_ccy spot_date n_months delivery_date)
              (\<lambda>delivery_date. Some (Inr (spot_date, delivery_date)))))"

definition snap_forward :: "calendar \<Rightarrow> string \<Rightarrow> date \<Rightarrow> date res" where
  "snap_forward hol self_ccy expiry =
     (case is_valid_expiry hol self_ccy expiry of
        Inl e \<Rightarrow> Some (Inl e)
      | Inr b \<Rightarrow> if b then Some (Inr expiry) else next_valid_expiry hol self_ccy expiry)"

definition snap_backward :: "calendar \<Rightarrow> string \<Rightarrow> date \<Rightarrow> date res" where
  "snap_backward hol self_ccy expiry =
     (case is_valid_expiry hol self_ccy expiry of
        Inl e \<Rightarrow> Some (Inl e)
      | Inr b \<Rightarrow> if b then Some (Inr expiry) else prev_valid_expiry hol self_ccy expiry)"

definition tenor_message :: string where
  "tenor_message = ''Invalid input, must be in the form: 'ON', '5W', '7M', '1Y' etc...''"

definition expiry_from_tenor :: "calendar \<Rightarrow> string \<Rightarrow> date \<Rightarrow> string \<Rightarrow> date res" where
  "expiry_from_tenor hol self_ccy horizon_date tenor =
     (if tenor = ''ON'' then next_valid_expiry hol self_ccy horizon_date
      else if tenor = [] then Some (Inl IndexError)
      else if last tenor = CHR ''D'' then
        (case py_int (butlast tenor) of
           None \<Rightarrow> Some (Inl ValueError)
         | Some n \<Rightarrow> snap_forward hol self_ccy (horizon_date + n))
      else if last tenor = CHR ''W'' then
        (case py_int (butlast tenor) of
           None \<Rightarrow> Some (Inl ValueError)
         | Some n \<Rightarrow> snap_forward hol self_ccy (horizon_date + n * 7))
      else if last tenor = CHR ''M'' \<or> last tenor = CHR ''Y'' then
        (case py_int (butlast tenor) of
           None \<Rightarrow> Some (Inl ValueError)
         | Some n \<Rightarrow>
             (let n_months = (if last tenor = CHR ''M'' then n else n * 12) in
              bind_res (delivery_from_horizon hol self_ccy horizon_date n_months)
                (\<lambda>(spot_date, delivery_date).
                   bind_res (horizon_from_spot hol self_ccy delivery_date)
                     (\<lambda>expiry. snap_backward hol self_ccy expiry))))
      else Some (Inl (InputError tenor_message)))"

subsection \<open>Vocabulary of the properties\<close>

text \<open>The country code that \<open>ccy_country_code[c][1]\<close> reads for a supported currency.\<close>

definition country_code :: "string \<Rightarrow> string" where
  "country_code c = (case ccy_country_code c of Some names \<Rightarrow> names ! 1 | None \<Rightarrow> [])"

text \<open>\<open>nearest_after valid d r\<close>: \<open>r\<close> is the first date after \<open>d\<close> that the predicate
  accepts, every date in between being rejected without an exception.\<close>

definition nearest_after :: "(date \<Rightarrow> py_error + bool) \<Rightarrow> date \<Rightarrow> date \<Rightarrow> bool" where
  "nearest_after valid d r =
     (d < r \<and> valid r = Inr True \<and> (\<forall>x. d < x \<and> x < r \<longrightarrow> valid x = Inr False))"

definition nearest_before :: "(date \<Rightarrow> py_error + bool) \<Rightarrow> date \<Rightarrow> date \<Rightarrow> bool" where
  "nearest_before valid d r =
     (r < d \<and> valid r = Inr True \<and> (\<forall>x. r < x \<and> x < d \<longrightarrow> valid x = Inr False))"

text \<open>The recursion scheme that the six walks share, with the step as a parameter, and
  the description of its result: the walk from \<open>d\<close> stops at its \<open>k\<close>-th step with
  outcome \<open>y\<close>.\<close>

partial_function (option) walk :: "(date \<Rightarrow> py_error + bool) \<Rightarrow> int \<Rightarrow> date \<Rightarrow> date res" where
  "walk valid s d =
     (let d = d + s in
      case valid d of
        Inl e \<Rightarrow> Some (Inl e)
      | Inr b \<Rightarrow> if b then Some (Inr d) else walk valid s d)"

fun walk_lim ::
    "(date \<Rightarrow> py_error + bool) \<Rightarrow> int \<Rightarrow> nat \<Rightarrow> date \<Rightarrow> py_error + date" where
  "walk_lim valid s 0 d = Inl RecursionError"
| "walk_lim valid s (Suc frames) d =
     (let d = d + s in
      case valid d of
        Inl e \<Rightarrow> Inl e
      | Inr b \<Rightarrow> if b then Inr d else walk_lim valid s frames d)"

definition stops :: "(date \<Rightarrow> py_error + bool) \<Rightarrow> date \<Rightarrow> py_error + date \<Rightarrow> bool" where
  "stops valid x y = (case valid x of Inl e \<Rightarrow> y = Inl e | Inr b \<Rightarrow> b \<and> y = Inr x)"

definition hit ::
    "(date \<Rightarrow> py_error + bool) \<Rightarrow> int \<Rightarrow> date \<Rightarrow> nat \<Rightarrow> py_error + date \<Rightarrow> bool" where
  "hit valid s d k y =
     (0 < k \<and> (\<forall>j. 0 < j \<and> j < k \<longrightarrow> valid (d + s * int j) = Inr False)
      \<and> stops valid (d + s * int k) y)"

text \<open>The distance in calendar months between two dates, years included.\<close>

definition months_between :: "date \<Rightarrow> date \<Rightarrow> int" where
  "months_between a b = (year_of b - year_of a) * 12 + (month_of b - month_of a)"

text \<open>Calendars used at concrete inputs: no holiday at all; the fourth of July 2014
  (ordinal 735418, a Friday) as the only holiday, in the United States; every day a
  holiday everywhere.\<close>

definition no_holidays :: calendar where
  "no_holidays code d = False"

definition july4 :: calendar where
  "july4 code d = (code = ''US'' \<and> d = 735418)"

definition all_holidays :: calendar where
  "all_holidays code d = True"

section \<open>Constructible pairs\<close>

lemma supported_cases:
  "x \<in> set supported_ccy \<Longrightarrow>
     x = ''USD'' \<or> x = ''GBP'' \<or> x = ''EUR'' \<or> x = ''JPY'' \<or> x = ''CHF''
     \<or> x = ''AUD'' \<or> x = ''CAD'' \<or> x = ''NZD'' \<or> x = ''SEK'' \<or> x = ''NOK''"
  by (simp add: supported_ccy_def)

lemma supported_length: "x \<in> set supported_ccy \<Longrightarrow> length x = 3"
  by (auto simp: supported_ccy_def)

lemma supported_country:
  "x \<in> set supported_ccy \<Longrightarrow> \<exists>names. ccy_country_code x = Some names \<and> names ! 1 = country_code x"
  by (drule supported_cases) (auto simp: ccy_country_code_def country_code_def)

lemma constructible_iff:
  "constructible ccy \<longleftrightarrow>
     (\<exists>a b. ccy = a @ b \<and> a \<in> set supported_ccy \<and> b \<in> set supported_ccy)"
proof
  assume "constructible ccy"
  then have l: "length ccy = 6" and a: "take 3 ccy \<in> set supported_ccy"
    and b: "take 3 (drop 3 ccy) \<in> set supported_ccy"
    by (auto simp: constructible_def TenorDates_def slice_def split: if_splits)
  from l have "take 3 (drop 3 ccy) = drop 3 ccy" by simp
  with a b have "ccy = take 3 ccy @ drop 3 ccy \<and> take 3 ccy \<in> set supported_ccy
      \<and> drop 3 ccy \<in> set supported_ccy"
    by simp
  then show "\<exists>a b. ccy = a @ b \<and> a \<in> set supported_ccy \<and> b \<in> set supported_ccy"
    by blast
next
  assume "\<exists>a b. ccy = a @ b \<and> a \<in> set supported_ccy \<and> b \<in> set supported_ccy"
  then obtain a b where ab: "ccy = a @ b" "a \<in> set supported_ccy" "b \<in> set supported_ccy"
    by blast
  then have "length a = 3" "length b = 3" by (auto simp: supported_length)
  with ab show "constructible ccy"
    by (simp add: constructible_def TenorDates_def slice_def)
qed

lemma slice_legs:
  assumes "a \<in> set supported_ccy" "b \<in> set supported_ccy"
  shows "slice 0 3 (a @ b) = a" "slice 3 6 (a @ b) = b"
  using assms by (auto simp: slice_def dest!: supported_length)

lemma contains_USD_legs:
  assumes "a \<in> set supported_ccy" "b \<in> set supported_ccy"
  shows "py_contains ''USD'' (a @ b) \<longleftrightarrow> a = ''USD'' \<or> b = ''USD''"
  using assms
  apply -
  apply (drule supported_cases)
  apply (drule supported_cases)
  apply (elim disjE; simp)
  done

lemma replace_USD_left:
  assumes "b \<in> set supported_ccy" "b \<noteq> ''USD''"
  shows "py_replace ''USD'' '''' (''USD'' @ b) = b"
  using assms
  apply -
  apply (drule supported_cases)
  apply (elim disjE; simp)
  done

lemma replace_USD_right:
  assumes "a \<in> set supported_ccy" "a \<noteq> ''USD''"
  shows "py_replace ''USD'' '''' (a @ ''USD'') = a"
  using assms
  apply -
  apply (drule supported_cases)
  apply (elim disjE; simp)
  done

section \<open>The walks, characterised\<close>

lemma step_shift: "d + s + s * int j = d + s * int (Suc j)"
  by (simp add: algebra_simps)

lemma hit_Suc:
  assumes "valid (d + s) = Inr False" "hit valid s (d + s) k y"
  shows "hit valid s d (Suc k) y"
  unfolding hit_def
proof (intro conjI allI impI)
  show "0 < Suc k" by simp
next
  fix j assume j: "0 < j \<and> j < Suc k"
  then obtain i where i: "j = Suc i" by (cases j) auto
  show "valid (d + s * int j) = Inr False"
  proof (cases "i = 0")
    case True then show ?thesis using assms(1) i by simp
  next
    case False
    with j i have "0 < i \<and> i < k" by arith
    with assms(2) have "valid (d + s + s * int i) = Inr False" by (simp add: hit_def)
    then show ?thesis unfolding i step_shift .
  qed
next
  from assms(2) have "stops valid (d + s + s * int k) y" by (simp add: hit_def)
  then show "stops valid (d + s * int (Suc k)) y" unfolding step_shift .
qed

lemma hit_1: "stops valid (d + s) y \<Longrightarrow> hit valid s d (Suc 0) y"
  by (simp add: hit_def)

lemma hit_pred:
  assumes "hit valid s d (Suc k) y" "0 < k"
  shows "valid (d + s) = Inr False \<and> hit valid s (d + s) k y"
proof
  from assms have "valid (d + s * int (Suc 0)) = Inr False" unfolding hit_def by blast
  then show "valid (d + s) = Inr False" by simp
next
  show "hit valid s (d + s) k y"
    unfolding hit_def
  proof (intro conjI allI impI)
    show "0 < k" by fact
  next
    fix j assume "0 < j \<and> j < k"
    then have "0 < Suc j \<and> Suc j < Suc k" by simp
    with assms(1) have "valid (d + s * int (Suc j)) = Inr False" unfolding hit_def by blast
    then show "valid (d + s + s * int j) = Inr False" unfolding step_shift .
  next
    from assms(1) have "stops valid (d + s * int (Suc k)) y" by (simp add: hit_def)
    then show "stops valid (d + s + s * int k) y" unfolding step_shift .
  qed
qed

text \<open>Any function that satisfies the unfolding equation of a walk returns what the
  description says.\<close>

lemma unfold_complete:
  assumes eq: "\<And>d. f d = (let d = d + s in
                 case valid d of
                   Inl e \<Rightarrow> Some (Inl e)
                 | Inr b \<Rightarrow> if b then Some (Inr d) else f d)"
    and h: "hit valid s d k y"
  shows "f d = Some y"
  using h
proof (induction k arbitrary: d)
  case 0
  then show ?case by (simp add: hit_def)
next
  case (Suc k)
  show ?case
  proof (cases "k = 0")
    case True
    with Suc.prems have "stops valid (d + s) y" by (simp add: hit_def)
    then show ?thesis
      by (subst eq) (auto simp: stops_def Let_def split: sum.splits)
  next
    case False
    with Suc.prems have f: "valid (d + s) = Inr False" and h: "hit valid s (d + s) k y"
      using hit_pred by blast+
    from h have "f (d + s) = Some y" by (rule Suc.IH)
    with f show ?thesis by (subst eq) (simp add: Let_def)
  qed
qed

lemma walk_sound:
  assumes "walk valid s d = Some y"
  shows "\<exists>k. hit valid s d k y"
proof (rule walk.raw_induct[where P = "\<lambda>valid s d y. \<exists>k. hit valid s d k y", OF _ assms])
  fix walk' :: "(date \<Rightarrow> py_error + bool) \<Rightarrow> int \<Rightarrow> date \<Rightarrow> date res" and valid s d y
  assume IH: "\<And>valid s d y. walk' valid s d = Some y \<Longrightarrow> \<exists>k. hit valid s d k y"
  assume eq: "(let d = d + s in case valid d of Inl e \<Rightarrow> Some (Inl e)
                | Inr b \<Rightarrow> if b then Some (Inr d) else walk' valid s d) = Some y"
  show "\<exists>k. hit valid s d k y"
  proof (cases "valid (d + s) = Inr False")
    case True
    with eq have "walk' valid s (d + s) = Some y" by (simp add: Let_def)
    then obtain k where "hit valid s (d + s) k y" using IH by blast
    with True have "hit valid s d (Suc k) y" by (rule hit_Suc)
    then show ?thesis by blast
  next
    case False
    with eq have "stops valid (d + s) y"
      by (auto simp: stops_def Let_def split: sum.splits if_splits)
    then have "hit valid s d (Suc 0) y" by (rule hit_1)
    then show ?thesis by blast
  qed
qed

lemma walk_iff: "walk valid s d = Some y \<longleftrightarrow> (\<exists>k. hit valid s d k y)"
  using walk_sound unfold_complete [of "walk valid s" s valid, OF walk.simps] by blast

lemma next_business_day_le_walk:
  assumes "next_business_day hol c d = Some y"
  shows "walk (is_business_day hol c) 1 d = Some y"
proof (rule next_business_day.raw_induct
    [where P = "\<lambda>hol c d y. walk (is_business_day hol c) 1 d = Some y", OF _ assms])
  fix f :: "calendar \<Rightarrow> string \<Rightarrow> date \<Rightarrow> date res" and hol c d y
  assume "\<And>hol c d y. f hol c d = Some y \<Longrightarrow> walk (is_business_day hol c) 1 d = Some y"
    and "(let d = d + 1 in
          case is_business_day hol c d of
            Inl e \<Rightarrow> Some (Inl e)
          | Inr b \<Rightarrow> if b then Some (Inr d) else f hol c d) = Some y"
  then show "walk (is_business_day hol c) 1 d = Some y"
    by (subst walk.simps) (auto simp: Let_def split: sum.splits if_splits)
qed

lemma next_business_day_walk: "next_business_day hol c d = walk (is_business_day hol c) 1 d"
proof (cases "walk (is_business_day hol c) 1 d")
  case None
  then show ?thesis using next_business_day_le_walk [of hol c d] by (cases "next_business_day hol c d") auto
next
  case (Some y)
  then obtain k where "hit (is_business_day hol c) 1 d k y" using walk_sound by blast
  then have "next_business_day hol c d = Some y"
    by (rule unfold_complete [rotated]) (subst next_business_day.simps, simp)
  with Some show ?thesis by simp
qed

lemma prev_business_day_le_walk:
  assumes "prev_business_day hol c d = Some y"
  shows "walk (is_business_day hol c) (- 1) d = Some y"
proof (rule prev_business_day.raw_induct
    [where P = "\<lambda>hol c d y. walk (is_business_day hol c) (- 1) d = Some y", OF _ assms])
  fix f :: "calendar \<Rightarrow> string \<Rightarrow> date \<Rightarrow> date res" and hol c d y
  assume "\<And>hol c d y. f hol c d = Some y \<Longrightarrow> walk (is_business_day hol c) (- 1) d = Some y"
    and "(let d = d - 1 in
          case is_business_day hol c d of
            Inl e \<Rightarrow> Some (Inl e)
          | Inr b \<Rightarrow> if b then Some (Inr d) else f hol c d) = Some y"
  then show "walk (is_business_day hol c) (- 1) d = Some y"
    by (subst walk.simps) (auto simp: Let_def split: sum.splits if_splits)
qed

lemma prev_business_day_walk: "prev_business_day hol c d = walk (is_business_day hol c) (- 1) d"
proof (cases "walk (is_business_day hol c) (- 1) d")
  case None
  then show ?thesis using prev_business_day_le_walk [of hol c d] by (cases "prev_business_day hol c d") auto
next
  case (Some y)
  then obtain k where "hit (is_business_day hol c) (- 1) d k y" using walk_sound by blast
  then have "prev_business_day hol c d = Some y"
    by (rule unfold_complete [rotated]) (subst prev_business_day.simps, simp)
  with Some show ?thesis by simp
qed

lemma next_valid_spot_le_walk:
  assumes "next_valid_spot hol c d = Some y"
  shows "walk (is_valid_spot hol c) 1 d = Some y"
proof (rule next_valid_spot.raw_induct
    [where P = "\<lambda>hol c d y. walk (is_valid_spot hol c) 1 d = Some y", OF _ assms])
  fix f :: "calendar \<Rightarrow> string \<Rightarrow> date \<Rightarrow> date res" and hol c d y
  assume "\<And>hol c d y. f hol c d = Some y \<Longrightarrow> walk (is_valid_spot hol c) 1 d = Some y"
    and "(let d = d + 1 in
          case is_valid_spot hol c d of
            Inl e \<Rightarrow> Some (Inl e)
          | Inr b \<Rightarrow> if b then Some (Inr d) else f hol c d) = Some y"
  then show "walk (is_valid_spot hol c) 1 d = Some y"
    by (subst walk.simps) (auto simp: Let_def split: sum.splits if_splits)
qed

lemma next_valid_spot_walk: "next_valid_spot hol c d = walk (is_valid_spot hol c) 1 d"
proof (cases "walk (is_valid_spot hol c) 1 d")
  case None
  then show ?thesis using next_valid_spot_le_walk [of hol c d] by (cases "next_valid_spot hol c d") auto
next
  case (Some y)
  then obtain k where "hit (is_valid_spot hol c) 1 d k y" using walk_sound by blast
  then have "next_valid_spot hol c d = Some y"
    by (rule unfold_complete [rotated]) (subst next_valid_spot.simps, simp)
  with Some show ?thesis by simp
qed

lemma prev_valid_spot_le_walk:
  assumes "prev_valid_spot hol c d = Some y"
  shows "walk (is_valid_spot hol c) (- 1) d = Some y"
proof (rule prev_valid_spot.raw_induct
    [where P = "\<lambda>hol c d y. walk (is_valid_spot hol c) (- 1) d = Some y", OF _ assms])
  fix f :: "calendar \<Rightarrow> string \<Rightarrow> date \<Rightarrow> date res" and hol c d y
  assume "\<And>hol c d y. f hol c d = Some y \<Longrightarrow> walk (is_valid_spot hol c) (- 1) d = Some y"
    and "(let d = d - 1 in
          case is_valid_spot hol c d of
            Inl e \<Rightarrow> Some (Inl e)
          | Inr b \<Rightarrow> if b then Some (Inr d) else f hol c d) = Some y"
  then show "walk (is_valid_spot hol c) (- 1) d = Some y"
    by (subst walk.simps) (auto simp: Let_def split: sum.splits if_splits)
qed

lemma prev_valid_spot_walk: "prev_valid_spot hol c d = walk (is_valid_spot hol c) (- 1) d"
proof (cases "walk (is_valid_spot hol c) (- 1) d")
  case None
  then show ?thesis using prev_valid_spot_le_walk [of hol c d] by (cases "prev_valid_spot hol c d") auto
next
  case (Some y)
  then obtain k where "hit (is_valid_spot hol c) (- 1) d k y" using walk_sound by blast
  then have "prev_valid_spot hol c d = Some y"
    by (rule unfold_complete [rotated]) (subst prev_valid_spot.simps, simp)
  with Some show ?thesis by simp
qed

lemma next_valid_expiry_le_walk:
  assumes "next_valid_expiry hol c d = Some y"
  shows "walk (is_valid_expiry hol c) 1 d = Some y"
proof (rule next_valid_expiry.raw_induct
    [where P = "\<lambda>hol c d y. walk (is_valid_expiry hol c) 1 d = Some y", OF _ assms])
  fix f :: "calendar \<Rightarrow> string \<Rightarrow> date \<Rightarrow> date res" and hol c d y
  assume "\<And>hol c d y. f hol c d = Some y \<Longrightarrow> walk (is_valid_expiry hol c) 1 d = Some y"
    and "(let d = d + 1 in
          case is_valid_expiry hol c d of
            Inl e \<Rightarrow> Some (Inl e)
          | Inr b \<Rightarrow> if b then Some (Inr d) else f hol c d) = Some y"
  then show "walk (is_valid_expiry hol c) 1 d = Some y"
    by (subst walk.simps) (auto simp: Let_def split: sum.splits if_splits)
qed

lemma next_valid_expiry_walk: "next_valid_expiry hol c d = walk (is_valid_expiry hol c) 1 d"
proof (cases "walk (is_valid_expiry hol c) 1 d")
  case None
  then show ?thesis using next_valid_expiry_le_walk [of hol c d] by (cases "next_valid_expiry hol c d") auto
next
  case (Some y)
  then obtain k where "hit (is_valid_expiry hol c) 1 d k y" using walk_sound by blast
  then have "next_valid_expiry hol c d = Some y"
    by (rule unfold_complete [rotated]) (subst next_valid_expiry.simps, simp)
  with Some show ?thesis by simp
qed

lemma prev_valid_expiry_le_walk:
  assumes "prev_valid_expiry hol c d = Some y"
  shows "walk (is_valid_expiry hol c) (- 1) d = Some y"
proof (rule prev_valid_expiry.raw_induct
    [where P = "\<lambda>hol c d y. walk (is_valid_expiry hol c) (- 1) d = Some y", OF _ assms])
  fix f :: "calendar \<Rightarrow> string \<Rightarrow> date \<Rightarrow> date res" and hol c d y
  assume "\<And>hol c d y. f hol c d = Some y \<Longrightarrow> walk (is_valid_expiry hol c) (- 1) d = Some y"
    and "(let d = d - 1 in
          case is_valid_expiry hol c d of
            Inl e \<Rightarrow> Some (Inl e)
          | Inr b \<Rightarrow> if b then Some (Inr d) else f hol c d) = Some y"
  then show "walk (is_valid_expiry hol c) (- 1) d = Some y"
    by (subst walk.simps) (auto simp: Let_def split: sum.splits if_splits)
qed

lemma prev_valid_expiry_walk: "prev_valid_expiry hol c d = walk (is_valid_expiry hol c) (- 1) d"
proof (cases "walk (is_valid_expiry hol c) (- 1) d")
  case None
  then show ?thesis using prev_valid_expiry_le_walk [of hol c d] by (cases "prev_valid_expiry hol c d") auto
next
  case (Some y)
  then obtain k where "hit (is_valid_expiry hol c) (- 1) d k y" using walk_sound by blast
  then have "prev_valid_expiry hol c d = Some y"
    by (rule unfold_complete [rotated]) (subst prev_valid_expiry.simps, simp)
  with Some show ?thesis by simp
qed

lemma stops_Inr: "stops valid x (Inr r) \<longleftrightarrow> valid x = Inr True \<and> r = x"
  by (auto simp: stops_def split: sum.splits)

lemma stops_Inl: "stops valid x (Inl e) \<longleftrightarrow> valid x = Inl e"
  by (auto simp: stops_def split: sum.splits)

lemma walk_fwd_Inr: "walk valid 1 d = Some (Inr r) \<longleftrightarrow> nearest_after valid d r"
proof
  assume "walk valid 1 d = Some (Inr r)"
  then obtain k where k: "hit valid 1 d k (Inr r)" using walk_sound by blast
  then have r: "r = d + int k" "valid r = Inr True" "0 < k"
    by (auto simp: hit_def stops_Inr)
  have "valid x = Inr False" if "d < x \<and> x < r" for x
  proof -
    from that r have "0 < nat (x - d) \<and> nat (x - d) < k" by auto
    with k have "valid (d + 1 * int (nat (x - d))) = Inr False" unfolding hit_def by blast
    with that show ?thesis by simp
  qed
  with r show "nearest_after valid d r" by (simp add: nearest_after_def)
next
  assume n: "nearest_after valid d r"
  have "hit valid 1 d (nat (r - d)) (Inr r)"
    unfolding hit_def
  proof (intro conjI allI impI)
    show "0 < nat (r - d)" using n by (simp add: nearest_after_def)
  next
    fix j assume "0 < j \<and> j < nat (r - d)"
    then have "d < d + 1 * int j \<and> d + 1 * int j < r" by auto
    with n show "valid (d + 1 * int j) = Inr False" unfolding nearest_after_def by blast
  next
    show "stops valid (d + 1 * int (nat (r - d))) (Inr r)"
      using n by (simp add: stops_Inr nearest_after_def)
  qed
  then show "walk valid 1 d = Some (Inr r)" by (auto simp: walk_iff)
qed

lemma walk_bwd_Inr: "walk valid (- 1) d = Some (Inr r) \<longleftrightarrow> nearest_before valid d r"
proof
  assume "walk valid (- 1) d = Some (Inr r)"
  then obtain k where k: "hit valid (- 1) d k (Inr r)" using walk_sound by blast
  then have r: "r = d - int k" "valid r = Inr True" "0 < k"
    by (auto simp: hit_def stops_Inr)
  have "valid x = Inr False" if "r < x \<and> x < d" for x
  proof -
    from that r have "0 < nat (d - x) \<and> nat (d - x) < k" by auto
    with k have "valid (d + - 1 * int (nat (d - x))) = Inr False" unfolding hit_def by blast
    with that show ?thesis by simp
  qed
  with r show "nearest_before valid d r" by (simp add: nearest_before_def)
next
  assume n: "nearest_before valid d r"
  have "hit valid (- 1) d (nat (d - r)) (Inr r)"
    unfolding hit_def
  proof (intro conjI allI impI)
    show "0 < nat (d - r)" using n by (simp add: nearest_before_def)
  next
    fix j assume "0 < j \<and> j < nat (d - r)"
    then have "r < d + - 1 * int j \<and> d + - 1 * int j < d" by auto
    with n show "valid (d + - 1 * int j) = Inr False" unfolding nearest_before_def by blast
  next
    show "stops valid (d + - 1 * int (nat (d - r))) (Inr r)"
      using n by (simp add: stops_Inr nearest_before_def)
  qed
  then show "walk valid (- 1) d = Some (Inr r)" by (auto simp: walk_iff)
qed

lemma walk_Inl: "walk valid s d = Some (Inl e) \<Longrightarrow> \<exists>x. valid x = Inl e"
  by (auto simp: walk_iff hit_def stops_Inl)

section \<open>The predicates on constructible pairs\<close>

lemma USD_supported: "''USD'' \<in> set supported_ccy"
  by (simp add: supported_ccy_def)

lemma is_business_day_USD_left:
  assumes "b \<in> set supported_ccy" "b \<noteq> ''USD''"
  shows "is_business_day hol (''USD'' @ b) d = Inr (is_weekday d \<and> \<not> hol (country_code b) d)"
proof -
  have c: "py_contains ''USD'' (''USD'' @ b)"
    using contains_USD_legs [OF USD_supported assms(1)] by simp
  obtain names where n: "ccy_country_code b = Some names" "names ! 1 = country_code b"
    using supported_country [OF assms(1)] by blast
  show ?thesis
    unfolding is_business_day_def
    by (simp only: c replace_USD_left [OF assms] if_True Let_def n option.case)
qed

lemma is_business_day_USD_right:
  assumes "a \<in> set supported_ccy" "a \<noteq> ''USD''"
  shows "is_business_day hol (a @ ''USD'') d = Inr (is_weekday d \<and> \<not> hol (country_code a) d)"
proof -
  have c: "py_contains ''USD'' (a @ ''USD'')"
    using contains_USD_legs [OF assms(1) USD_supported] by simp
  obtain names where n: "ccy_country_code a = Some names" "names ! 1 = country_code a"
    using supported_country [OF assms(1)] by blast
  show ?thesis
    unfolding is_business_day_def
    by (simp only: c replace_USD_right [OF assms] if_True Let_def n option.case)
qed

lemma is_business_day_cross:
  assumes "a \<in> set supported_ccy" "b \<in> set supported_ccy" "a \<noteq> ''USD''" "b \<noteq> ''USD''"
  shows "is_business_day hol (a @ b) d =
           Inr (is_weekday d \<and> \<not> hol (country_code a) d \<and> \<not> hol (country_code b) d)"
proof -
  have c: "\<not> py_contains ''USD'' (a @ b)"
    using contains_USD_legs [OF assms(1,2)] assms(3,4) by simp
  obtain na where na: "ccy_country_code a = Some na" "na ! 1 = country_code a"
    using supported_country [OF assms(1)] by blast
  obtain nb where nb: "ccy_country_code b = Some nb" "nb ! 1 = country_code b"
    using supported_country [OF assms(2)] by blast
  show ?thesis
    unfolding is_business_day_def
    by (simp only: c slice_legs [OF assms(1,2)] if_False Let_def na nb option.case)
qed

lemma is_business_day_USDUSD: "is_business_day hol ''USDUSD'' d = Inl (KeyError [])"
  by (simp add: is_business_day_def ccy_country_code_def)

text \<open>What \<open>is_business_day\<close> computes on every constructible pair but \<open>USDUSD\<close>.\<close>

lemma is_business_day_constructible:
  assumes "constructible ccy" "ccy \<noteq> ''USDUSD''"
  shows "is_business_day hol ccy d =
     Inr (is_weekday d \<and>
          (if slice 0 3 ccy = ''USD'' then \<not> hol (country_code (slice 3 6 ccy)) d
           else if slice 3 6 ccy = ''USD'' then \<not> hol (country_code (slice 0 3 ccy)) d
           else \<not> hol (country_code (slice 0 3 ccy)) d
                \<and> \<not> hol (country_code (slice 3 6 ccy)) d))"
proof -
  from assms(1) obtain a b where ab: "ccy = a @ b" "a \<in> set supported_ccy" "b \<in> set supported_ccy"
    using constructible_iff by blast
  note sl = slice_legs [OF ab(2,3)]
  show ?thesis
  proof (cases "a = ''USD''")
    case True
    with assms(2) ab have "b \<noteq> ''USD''" by auto
    with True ab show ?thesis
      using is_business_day_USD_left [of b hol d] sl by simp
  next
    case False
    show ?thesis
    proof (cases "b = ''USD''")
      case True
      with False ab show ?thesis
        using is_business_day_USD_right [of a hol d] sl by simp
    next
      case b: False
      with False ab show ?thesis
        using is_business_day_cross [of a b hol d] sl by simp
    qed
  qed
qed

lemma is_valid_expiry_constructible:
  assumes "constructible ccy"
  shows "is_valid_expiry hol ccy d =
     Inr (is_weekday d \<and> \<not> (day_of d = 1 \<and> month_of d = 1)
          \<and> (\<not> hol (country_code (slice 0 3 ccy)) d
               \<or> \<not> hol (country_code (slice 3 6 ccy)) d))"
proof -
  from assms(1) obtain a b where ab: "ccy = a @ b" "a \<in> set supported_ccy" "b \<in> set supported_ccy"
    using constructible_iff by blast
  obtain na where na: "ccy_country_code a = Some na" "na ! 1 = country_code a"
    using supported_country [OF ab(2)] by blast
  obtain nb where nb: "ccy_country_code b = Some nb" "nb ! 1 = country_code b"
    using supported_country [OF ab(3)] by blast
  show ?thesis
    unfolding is_valid_expiry_def ab(1)
    by (simp only: slice_legs [OF ab(2,3)] Let_def na nb option.case)
qed

lemma is_valid_spot_eq:
  "is_valid_spot hol ccy d =
     (case is_business_day hol ccy d of Inl e \<Rightarrow> Inl e | Inr b \<Rightarrow> Inr (b \<and> \<not> hol ''US'' d))"
  by (simp add: is_valid_spot_def ccy_country_code_def split: sum.splits)

lemma constructible_examples:
  "constructible ''EURUSD''" "constructible ''USDCAD''" "constructible ''EURGBP''"
  "constructible ''USDUSD''"
  by (simp_all add: constructible_def TenorDates_def slice_def supported_ccy_def)

lemma is_business_day_EURUSD:
  "is_business_day hol ''EURUSD'' d = Inr (is_weekday d \<and> \<not> hol ''ECB'' d)"
  by (simp add: is_business_day_def ccy_country_code_def)

lemma is_business_day_USDCAD:
  "is_business_day hol ''USDCAD'' d = Inr (is_weekday d \<and> \<not> hol ''CA'' d)"
  by (simp add: is_business_day_def ccy_country_code_def)

lemma is_business_day_EURGBP:
  "is_business_day hol ''EURGBP'' d =
     Inr (is_weekday d \<and> \<not> hol ''ECB'' d \<and> \<not> hol ''GB'' d)"
  by (simp add: is_business_day_def ccy_country_code_def slice_def)

lemma is_valid_expiry_EURUSD:
  "is_valid_expiry hol ''EURUSD'' d =
     Inr (is_weekday d \<and> \<not> (day_of d = 1 \<and> month_of d = 1)
          \<and> (\<not> hol ''ECB'' d \<or> \<not> hol ''US'' d))"
  by (simp add: is_valid_expiry_def ccy_country_code_def slice_def)

lemma is_valid_expiry_USDCAD:
  "is_valid_expiry hol ''USDCAD'' d =
     Inr (is_weekday d \<and> \<not> (day_of d = 1 \<and> month_of d = 1)
          \<and> (\<not> hol ''US'' d \<or> \<not> hol ''CA'' d))"
  by (simp add: is_valid_expiry_def ccy_country_code_def slice_def)

lemmas pair_simps =
  is_business_day_EURUSD is_business_day_USDCAD is_business_day_EURGBP
  is_valid_expiry_EURUSD is_valid_expiry_USDCAD is_valid_spot_eq

lemmas day_simps = is_weekday_def weekday_def no_holidays_def july4_def all_holidays_def

text \<open>The first of January of every year is read back as such from its ordinal.\<close>

lemma divmod_pos:
  fixes a q r t :: int
  assumes "a = t * q + r" "0 \<le> r" "r < t"
  shows "a div t = q" "a mod t = r"
  using assms by (auto simp: int_div_pos_eq int_mod_pos_eq)

lemma first_of_january: "ord2ymd (ymd2ord y 1 1) = (y, 1, 1)"
proof -
  define Y where "Y = y - 1"
  define a where "a = Y div 400"
  define r where "r = Y mod 400"
  define b where "b = r div 100"
  define r2 where "r2 = r mod 100"
  define c where "c = r2 div 4"
  define e where "e = r2 mod 4"
  have Y: "Y = 400 * a + r" and r: "0 \<le> r" "r < 400"
    by (simp_all add: a_def r_def)
  have rb: "r = 100 * b + r2" and r2: "0 \<le> r2" "r2 < 100"
    by (simp_all add: b_def r2_def)
  have rc: "r2 = 4 * c + e" and e: "0 \<le> e" "e < 4"
    by (simp_all add: c_def e_def)
  have b: "0 \<le> b" "b < 4" using r by (auto simp: b_def)
  have c: "0 \<le> c" "c < 25" using r2 by (auto simp: c_def)
  have Yeq: "Y = 400 * a + 100 * b + 4 * c + e" using Y rb rc by simp
  have d4: "Y div 4 = 100 * a + 25 * b + c"
    by (rule divmod_pos(1) [where r = e]) (use Yeq e in auto)
  have d100: "Y div 100 = 4 * a + b"
    by (rule divmod_pos(1) [where r = r2]) (use Y rb r2 in auto)
  have d400: "Y div 400 = a" by (simp add: a_def)
  define n where "n = ymd2ord y 1 1 - 1"
  have n: "n = 146097 * a + 36524 * b + 1461 * c + 365 * e"
    unfolding n_def ymd2ord_def days_before_year_def days_before_month_def
      DAYS_BEFORE_MONTH_def Let_def Y_def [symmetric]
    using d4 d100 d400 Yeq by simp
  define m1 where "m1 = 36524 * b + 1461 * c + 365 * e"
  define m2 where "m2 = 1461 * c + 365 * e"
  have m2b: "0 \<le> m2" "m2 < 36524" using c e by (auto simp: m2_def)
  have m1b: "0 \<le> m1" "m1 < 146097" using b m2b by (auto simp: m1_def m2_def)
  have s1: "n div 146097 = a" "n mod 146097 = m1"
    by (rule divmod_pos [where r = m1 and q = a]; use n m1b in \<open>simp add: m1_def\<close>)+
  have s2: "m1 div 36524 = b" "m1 mod 36524 = m2"
    by (rule divmod_pos [where r = m2 and q = b]; use m2b in \<open>simp add: m1_def m2_def\<close>)+
  have s3: "m2 div 1461 = c" "m2 mod 1461 = 365 * e"
    by (rule divmod_pos [where r = "365 * e" and q = c]; use e in \<open>simp add: m2_def\<close>)+
  have s4: "(365 * e) div 365 = e" "(365 * e) mod 365 = 0"
    by simp_all
  have "ord2ymd (n + 1) = (y, 1, 1)"
    unfolding ord2ymd_def Let_def
    using b e Yeq
    by (simp add: s1 s2 s3 s4 DAYS_BEFORE_MONTH_def Y_def)
  then show ?thesis by (simp add: n_def)
qed

lemma first_of_january_fields:
  "day_of (ymd2ord y 1 1) = 1" "month_of (ymd2ord y 1 1) = 1" "year_of (ymd2ord y 1 1) = y"
  by (simp_all add: day_of_def month_of_def year_of_def first_of_january)

section \<open>The claims about the predicates\<close>

text \<open>
  C4. The claim: on every constructible pair \<open>is_business_day\<close> returns false on weekends,
  consults the calendar of the other leg alone when one leg is USD, and otherwise, the
  pair USDUSD included, consults the calendars of both legs. The constructor accepts
  USDUSD, and on that pair the method raises on every date: removing \<open>USD\<close> from the
  pair leaves the empty string, which is no key of \<open>ccy_country_code\<close>. (On every other
  constructible pair the method computes what the claim says:
  \<open>is_business_day_constructible\<close>.)
\<close>

theorem is_business_day_USDUSD_KeyError:
  "constructible ''USDUSD'' \<and> is_business_day hol ''USDUSD'' d = Inl (KeyError [])"
  by (simp add: constructible_examples is_business_day_USDUSD)

text \<open>
  C5. \<open>is_valid_spot\<close> holds exactly when \<open>is_business_day\<close> holds and the date is no
  holiday in the United States, whatever the legs of the pair are; whenever
  \<open>is_business_day\<close> returns, \<open>is_valid_spot\<close> returns its conjunction with the US test;
  a valid spot is a business day.
\<close>

theorem is_valid_spot_spec:
  "(is_valid_spot hol ccy d = Inr True
      \<longleftrightarrow> is_business_day hol ccy d = Inr True \<and> \<not> hol ''US'' d)
   \<and> (\<forall>b. is_business_day hol ccy d = Inr b
          \<longrightarrow> is_valid_spot hol ccy d = Inr (b \<and> \<not> hol ''US'' d))
   \<and> (is_valid_spot hol ccy d = Inr True \<longrightarrow> is_business_day hol ccy d = Inr True)"
  by (auto simp: is_valid_spot_eq split: sum.splits)

theorem is_valid_spot_spec_witness:
  "is_business_day july4 ''EURGBP'' 735418 = Inr True
   \<and> is_valid_spot july4 ''EURGBP'' 735418 = Inr False
   \<and> is_valid_spot july4 ''EURGBP'' 735417 = Inr True
   \<and> is_business_day july4 ''EURGBP'' 735417 = Inr True"
proof -
  have b: "is_business_day july4 ''EURGBP'' 735418 = Inr True"
    by (simp add: is_business_day_EURGBP day_simps)
  have s: "is_valid_spot july4 ''EURGBP'' 735417 = Inr True"
    by (simp add: pair_simps day_simps)
  from b is_valid_spot_spec [of july4 "''EURGBP''" 735418]
  have "is_valid_spot july4 ''EURGBP'' 735418 = Inr (True \<and> \<not> july4 ''US'' 735418)"
    by blast
  moreover from s is_valid_spot_spec [of july4 "''EURGBP''" 735417]
  have "is_business_day july4 ''EURGBP'' 735417 = Inr True" by blast
  ultimately show ?thesis using b s by (simp add: july4_def)
qed

text \<open>
  C6. On a constructible pair \<open>is_valid_expiry\<close> holds exactly on a weekday that is not
  the first of January and is no holiday in at least one of the two countries; on a
  first of January, of whatever year, it is false, whatever the weekday and the
  calendars.
\<close>

theorem is_valid_expiry_spec:
  assumes "constructible ccy"
  shows "is_valid_expiry hol ccy d =
           Inr (is_weekday d \<and> \<not> (day_of d = 1 \<and> month_of d = 1)
                \<and> (\<not> hol (country_code (slice 0 3 ccy)) d
                     \<or> \<not> hol (country_code (slice 3 6 ccy)) d))
         \<and> (day_of d = 1 \<and> month_of d = 1 \<longrightarrow> is_valid_expiry hol ccy d = Inr False)
         \<and> is_valid_expiry hol ccy (ymd2ord y 1 1) = Inr False"
  by (simp add: is_valid_expiry_constructible [OF assms] first_of_january_fields)

theorem is_valid_expiry_spec_witness:
  "constructible ''EURUSD'' \<and> ymd2ord 2014 1 1 = 735234 \<and> is_weekday 735234
   \<and> day_of 735234 = 1 \<and> month_of 735234 = 1
   \<and> is_valid_expiry no_holidays ''EURUSD'' 735234 = Inr False"
proof -
  have c: "constructible ''EURUSD''" by (rule constructible_examples)
  have o: "ymd2ord 2014 1 1 = 735234" by code_simp
  have j: "day_of 735234 = 1 \<and> month_of 735234 = 1" by code_simp
  have w: "is_weekday 735234" by (simp add: day_simps)
  from is_valid_expiry_spec [OF c, of no_holidays 735234 2014] j
  have "is_valid_expiry no_holidays ''EURUSD'' 735234 = Inr False" by blast
  with c o j w show ?thesis by simp
qed

section \<open>The claims about the walks\<close>

text \<open>
  C7. Each of the six walks returns the date \<open>r\<close> exactly when \<open>r\<close> is the nearest date
  strictly after (strictly before, for the backward walks) the input that satisfies the
  walk's predicate; the input date itself is never returned.
\<close>

theorem walks_return_nearest:
  "(next_business_day hol ccy d = Some (Inr r) \<longleftrightarrow> nearest_after (is_business_day hol ccy) d r)
   \<and> (prev_business_day hol ccy d = Some (Inr r) \<longleftrightarrow> nearest_before (is_business_day hol ccy) d r)
   \<and> (next_valid_spot hol ccy d = Some (Inr r) \<longleftrightarrow> nearest_after (is_valid_spot hol ccy) d r)
   \<and> (prev_valid_spot hol ccy d = Some (Inr r) \<longleftrightarrow> nearest_before (is_valid_spot hol ccy) d r)
   \<and> (next_valid_expiry hol ccy d = Some (Inr r) \<longleftrightarrow> nearest_after (is_valid_expiry hol ccy) d r)
   \<and> (prev_valid_expiry hol ccy d = Some (Inr r) \<longleftrightarrow> nearest_before (is_valid_expiry hol ccy) d r)
   \<and> next_business_day hol ccy d \<noteq> Some (Inr d) \<and> prev_business_day hol ccy d \<noteq> Some (Inr d)
   \<and> next_valid_spot hol ccy d \<noteq> Some (Inr d) \<and> prev_valid_spot hol ccy d \<noteq> Some (Inr d)
   \<and> next_valid_expiry hol ccy d \<noteq> Some (Inr d) \<and> prev_valid_expiry hol ccy d \<noteq> Some (Inr d)"
  by (simp add: next_business_day_walk prev_business_day_walk next_valid_spot_walk
      prev_valid_spot_walk next_valid_expiry_walk prev_valid_expiry_walk
      walk_fwd_Inr walk_bwd_Inr nearest_after_def nearest_before_def)

lemma friday_to_monday:
  "nearest_after (is_business_day no_holidays ''EURUSD'') 735600 735603"
  unfolding nearest_after_def
proof (intro conjI allI impI)
  fix x :: int assume "735600 < x \<and> x < 735603"
  then have "x = 735601 \<or> x = 735602" by arith
  then show "is_business_day no_holidays ''EURUSD'' x = Inr False"
    by (auto simp: pair_simps day_simps)
qed (simp_all add: pair_simps day_simps)

theorem walks_return_nearest_witness:
  "is_business_day no_holidays ''EURUSD'' 735600 = Inr True
   \<and> next_business_day no_holidays ''EURUSD'' 735600 = Some (Inr 735603)
   \<and> next_business_day no_holidays ''EURUSD'' 735600 \<noteq> Some (Inr 735600)"
proof -
  have "is_business_day no_holidays ''EURUSD'' 735600 = Inr True"
    by (simp add: pair_simps day_simps)
  then show ?thesis
    using walks_return_nearest [of no_holidays "''EURUSD''" 735600 735603] friday_to_monday
    by simp
qed

subsection \<open>The walks under the recursion limit\<close>











text \<open>Where the limit is not reached, the walk on the unbounded stack returns the same.\<close>

lemma walk_lim_agrees:
  "walk_lim valid s k d = y \<Longrightarrow> y \<noteq> Inl RecursionError \<Longrightarrow> walk valid s d = Some y"
proof (induction k arbitrary: d)
  case 0
  then show ?case by simp
next
  case (Suc k)
  show ?case
  proof (cases "valid (d + s)")
    case (Inl e)
    with Suc.prems show ?thesis by (subst walk.simps) (simp add: Let_def)
  next
    case (Inr b)
    show ?thesis
    proof (cases b)
      case True
      with Inr Suc.prems show ?thesis by (subst walk.simps) (simp add: Let_def)
    next
      case False
      with Inr Suc.prems have "walk_lim valid s k (d + s) = y" by (simp add: Let_def)
      then have "walk valid s (d + s) = Some y" using Suc.prems(2) by (rule Suc.IH)
      with Inr False show ?thesis by (subst walk.simps) (simp add: Let_def)
    qed
  qed
qed

lemma next_business_day_lim_walk:
  "next_business_day_lim k hol ccy d = walk_lim (is_business_day hol ccy) (1) k d"
  by (induction k arbitrary: d) (simp_all add: Let_def split: sum.splits)

lemma prev_business_day_lim_walk:
  "prev_business_day_lim k hol ccy d = walk_lim (is_business_day hol ccy) (- 1) k d"
  by (induction k arbitrary: d) (simp_all add: Let_def split: sum.splits)

lemma next_valid_spot_lim_walk:
  "next_valid_spot_lim k hol ccy d = walk_lim (is_valid_spot hol ccy) (1) k d"
  by (induction k arbitrary: d) (simp_all add: Let_def split: sum.splits)

lemma prev_valid_spot_lim_walk:
  "prev_valid_spot_lim k hol ccy d = walk_lim (is_valid_spot hol ccy) (- 1) k d"
  by (induction k arbitrary: d) (simp_all add: Let_def split: sum.splits)

lemma next_valid_expiry_lim_walk:
  "next_valid_expiry_lim k hol ccy d = walk_lim (is_valid_expiry hol ccy) (1) k d"
  by (induction k arbitrary: d) (simp_all add: Let_def split: sum.splits)

lemma prev_valid_expiry_lim_walk:
  "prev_valid_expiry_lim k hol ccy d = walk_lim (is_valid_expiry hol ccy) (- 1) k d"
  by (induction k arbitrary: d) (simp_all add: Let_def split: sum.splits)

lemmas lim_walk =
  next_business_day_lim_walk prev_business_day_lim_walk next_valid_spot_lim_walk
  prev_valid_spot_lim_walk next_valid_expiry_lim_walk prev_valid_expiry_lim_walk

text \<open>Where the limit is not reached, the two embeddings of a walk agree.\<close>

lemma walks_lim_agree:
  assumes "y \<noteq> Inl RecursionError"
  shows "next_business_day_lim k hol ccy d = y \<Longrightarrow> next_business_day hol ccy d = Some y"
    and "prev_business_day_lim k hol ccy d = y \<Longrightarrow> prev_business_day hol ccy d = Some y"
    and "next_valid_spot_lim k hol ccy d = y \<Longrightarrow> next_valid_spot hol ccy d = Some y"
    and "prev_valid_spot_lim k hol ccy d = y \<Longrightarrow> prev_valid_spot hol ccy d = Some y"
    and "next_valid_expiry_lim k hol ccy d = y \<Longrightarrow> next_valid_expiry hol ccy d = Some y"
    and "prev_valid_expiry_lim k hol ccy d = y \<Longrightarrow> prev_valid_expiry hol ccy d = Some y"
  using assms
  by (simp_all add: lim_walk next_business_day_walk prev_business_day_walk
      next_valid_spot_walk prev_valid_spot_walk next_valid_expiry_walk
      prev_valid_expiry_walk walk_lim_agrees)



section \<open>Spot and horizon, characterised\<close>

lemma bind_res_Inr:
  "bind_res m f = Some (Inr r) \<longleftrightarrow> (\<exists>x. m = Some (Inr x) \<and> f x = Some (Inr r))"
  by (auto simp: bind_res_def split: option.splits sum.splits)

lemma nearest_after_next: "valid (d + 1) = Inr True \<Longrightarrow> nearest_after valid d (d + 1)"
  by (auto simp: nearest_after_def)

lemma nearest_after_unique:
  "nearest_after valid d r \<Longrightarrow> nearest_after valid d r' \<Longrightarrow> r = r'"
  unfolding nearest_after_def
  by (metis Inr_inject linorder_neqE_linordered_idom)

lemma spot_from_horizon_fast:
  assumes "is_business_day hol ccy h = Inr True" "ccy \<in> set fast_pairs"
  shows "spot_from_horizon hol ccy h = Some (Inr r) \<longleftrightarrow> nearest_after (is_valid_spot hol ccy) h r"
  using assms by (simp add: spot_from_horizon_def next_valid_spot_walk walk_fwd_Inr)

lemma spot_from_horizon_standard:
  assumes "is_business_day hol ccy h = Inr True" "ccy \<notin> set fast_pairs"
  shows "spot_from_horizon hol ccy h = Some (Inr r) \<longleftrightarrow>
           (\<exists>b. nearest_after (is_business_day hol ccy) h b
                \<and> nearest_after (is_valid_spot hol ccy) b r)"
  using assms
  by (simp add: spot_from_horizon_def bind_res_Inr next_valid_spot_walk
      next_business_day_walk walk_fwd_Inr)

lemma spot_from_horizon_assert:
  assumes "is_business_day hol ccy h = Inr False"
  shows "spot_from_horizon hol ccy h
           = Some (Inl (AssertionError ''Horizon date is not a business day!''))"
  using assms by (simp add: spot_from_horizon_def)

lemma horizon_from_spot_fast:
  assumes "is_valid_spot hol ccy s = Inr True" "ccy \<in> set fast_pairs"
  shows "horizon_from_spot hol ccy s = Some (Inr r)
           \<longleftrightarrow> nearest_before (is_valid_expiry hol ccy) s r"
  using assms by (simp add: horizon_from_spot_def prev_valid_expiry_walk walk_bwd_Inr)

lemma horizon_from_spot_standard:
  assumes "is_valid_spot hol ccy s = Inr True" "ccy \<notin> set fast_pairs"
  shows "horizon_from_spot hol ccy s = Some (Inr r) \<longleftrightarrow>
           (\<exists>b. nearest_before (is_business_day hol ccy) s b
                \<and> nearest_before (is_valid_expiry hol ccy) b r)"
  using assms
  by (simp add: horizon_from_spot_def bind_res_Inr prev_valid_expiry_walk
      prev_business_day_walk walk_bwd_Inr)

lemma horizon_from_spot_assert:
  assumes "is_valid_spot hol ccy s = Inr False"
  shows "horizon_from_spot hol ccy s = Some (Inl (AssertionError ''Spot date is not valid!''))"
  using assms by (simp add: horizon_from_spot_def)

lemma fast_pairs_set:
  "set fast_pairs = {''USDCAD'', ''USDTRY'', ''USDPHP'', ''USDRUB''}"
  by (simp add: fast_pairs_def)

text \<open>
  C2. On a horizon that is a business day, \<open>spot_from_horizon\<close> returns, for a pair of the
  fast-settling list, the nearest valid spot strictly after the horizon, and for any other
  pair the nearest valid spot strictly after the nearest business day strictly after the
  horizon; on a horizon that is no business day it fails with the assertion.
\<close>

theorem spot_from_horizon_spec:
  "(is_business_day hol ccy h = Inr True
      \<and> ccy \<in> {''USDCAD'', ''USDTRY'', ''USDPHP'', ''USDRUB''}
    \<longrightarrow> (spot_from_horizon hol ccy h = Some (Inr r)
          \<longleftrightarrow> nearest_after (is_valid_spot hol ccy) h r))
   \<and> (is_business_day hol ccy h = Inr True
        \<and> ccy \<notin> {''USDCAD'', ''USDTRY'', ''USDPHP'', ''USDRUB''}
      \<longrightarrow> (spot_from_horizon hol ccy h = Some (Inr r)
            \<longleftrightarrow> (\<exists>b. nearest_after (is_business_day hol ccy) h b
                     \<and> nearest_after (is_valid_spot hol ccy) b r)))
   \<and> (is_business_day hol ccy h = Inr False
      \<longrightarrow> spot_from_horizon hol ccy h
            = Some (Inl (AssertionError ''Horizon date is not a business day!'')))"
  unfolding fast_pairs_set [symmetric]
  by (intro conjI impI; (elim conjE)?;
      (erule (1) spot_from_horizon_fast | erule (1) spot_from_horizon_standard
       | erule spot_from_horizon_assert))

theorem spot_from_horizon_spec_witness:
  "is_business_day no_holidays ''EURUSD'' 735395 = Inr True
   \<and> spot_from_horizon no_holidays ''EURUSD'' 735395 = Some (Inr 735397)
   \<and> is_business_day no_holidays ''USDCAD'' 735395 = Inr True
   \<and> spot_from_horizon no_holidays ''USDCAD'' 735395 = Some (Inr 735396)
   \<and> is_business_day no_holidays ''EURUSD'' 735398 = Inr False
   \<and> spot_from_horizon no_holidays ''EURUSD'' 735398
       = Some (Inl (AssertionError ''Horizon date is not a business day!''))"
proof -
  have b1: "is_business_day no_holidays ''EURUSD'' 735395 = Inr True"
    and b2: "is_business_day no_holidays ''USDCAD'' 735395 = Inr True"
    and b3: "is_business_day no_holidays ''EURUSD'' 735398 = Inr False"
    by (simp_all add: pair_simps day_simps)
  have n1: "nearest_after (is_business_day no_holidays ''EURUSD'') 735395 735396"
    using nearest_after_next [of "is_business_day no_holidays ''EURUSD''" 735395]
    by (simp add: pair_simps day_simps)
  have n2: "nearest_after (is_valid_spot no_holidays ''EURUSD'') 735396 735397"
    using nearest_after_next [of "is_valid_spot no_holidays ''EURUSD''" 735396]
    by (simp add: pair_simps day_simps)
  have n3: "nearest_after (is_valid_spot no_holidays ''USDCAD'') 735395 735396"
    using nearest_after_next [of "is_valid_spot no_holidays ''USDCAD''" 735395]
    by (simp add: pair_simps day_simps)
  have "spot_from_horizon no_holidays ''EURUSD'' 735395 = Some (Inr 735397)"
    using spot_from_horizon_spec [of no_holidays "''EURUSD''" 735395 735397] b1 n1 n2
    by auto
  moreover have "spot_from_horizon no_holidays ''USDCAD'' 735395 = Some (Inr 735396)"
    using spot_from_horizon_spec [of no_holidays "''USDCAD''" 735395 735396] b2 n3
    by simp
  moreover have "spot_from_horizon no_holidays ''EURUSD'' 735398
       = Some (Inl (AssertionError ''Horizon date is not a business day!''))"
    using spot_from_horizon_spec [of no_holidays "''EURUSD''" 735398 0] b3
    by simp
  ultimately show ?thesis using b1 b2 b3 by simp
qed

section \<open>Evaluation at concrete dates\<close>

lemmas walk_simps =
  next_business_day.simps prev_business_day.simps next_valid_spot.simps
  prev_valid_spot.simps next_valid_expiry.simps prev_valid_expiry.simps

lemma ymd_examples:
  "ord2ymd 735395 = (2014, 6, 11)" "ord2ymd 735396 = (2014, 6, 12)"
  "ord2ymd 735397 = (2014, 6, 13)" "ord2ymd 735416 = (2014, 7, 2)"
  "ord2ymd 735417 = (2014, 7, 3)" "ord2ymd 735418 = (2014, 7, 4)"
  "ord2ymd 735421 = (2014, 7, 7)" "ord2ymd 735593 = (2014, 12, 26)"
  "ord2ymd 735596 = (2014, 12, 29)" "ord2ymd 735597 = (2014, 12, 30)"
  "ord2ymd 735598 = (2014, 12, 31)" "ord2ymd 735601 = (2015, 1, 3)"
  "ord2ymd 735602 = (2015, 1, 4)" "ord2ymd 735603 = (2015, 1, 5)"
  "ord2ymd 735608 = (2015, 1, 10)" "ord2ymd 735609 = (2015, 1, 11)"
  "ord2ymd 735610 = (2015, 1, 12)" "ord2ymd 735627 = (2015, 1, 29)"
  "ord2ymd 735628 = (2015, 1, 30)" "ord2ymd 735629 = (2015, 1, 31)"
  "ord2ymd 735630 = (2015, 2, 1)" "ord2ymd 735631 = (2015, 2, 2)"
  by code_simp+

lemmas date_simps = year_of_def month_of_def day_of_def ymd_examples

lemma add_months_example: "add_months 735598 1 = 735629"
  by code_simp

lemma py_int_examples:
  "py_int ''0'' = Some 0" "py_int ''-3'' = Some (- 3)" "py_int ''1'' = Some 1"
  "py_int ''5'' = Some 5" "py_int ''X'' = None"
  by code_simp+

section \<open>The claim about the inverse\<close>

text \<open>
  C3. The claim: \<open>horizon_from_spot\<close> undoes \<open>spot_from_horizon\<close> on every business-day
  horizon. With the fourth of July 2014 a holiday in the United States, the horizon
  Wednesday 2 July 2014 of EURUSD has the spot Monday 7 July, and \<open>horizon_from_spot\<close>
  of that spot is Thursday 3 July (which has the same spot).
\<close>

theorem horizon_from_spot_not_inverse_counterexample:
  "is_business_day july4 ''EURUSD'' 735416 = Inr True
   \<and> spot_from_horizon july4 ''EURUSD'' 735416 = Some (Inr 735421)
   \<and> horizon_from_spot july4 ''EURUSD'' 735421 = Some (Inr 735417)
   \<and> bind_res (spot_from_horizon july4 ''EURUSD'' 735416) (horizon_from_spot july4 ''EURUSD'')
       \<noteq> Some (Inr 735416)"
proof -
  have s: "spot_from_horizon july4 ''EURUSD'' 735416 = Some (Inr 735421)"
    by (simp add: spot_from_horizon_def fast_pairs_def bind_res_def walk_simps
        pair_simps day_simps)
  have h: "horizon_from_spot july4 ''EURUSD'' 735421 = Some (Inr 735417)"
    by (simp add: horizon_from_spot_def fast_pairs_def bind_res_def walk_simps
        pair_simps day_simps date_simps)
  have b: "is_business_day july4 ''EURUSD'' 735416 = Inr True"
    by (simp add: pair_simps day_simps)
  from s h b show ?thesis by (simp add: bind_res_def)
qed

lemma spot_is_valid:
  assumes "spot_from_horizon hol ccy h = Some (Inr s)"
  shows "is_valid_spot hol ccy s = Inr True"
proof -
  from assms have "(\<exists>d. next_valid_spot hol ccy d = Some (Inr s))"
    by (auto simp: spot_from_horizon_def bind_res_Inr split: sum.splits if_splits)
  then show ?thesis
    by (auto simp: next_valid_spot_walk walk_fwd_Inr nearest_after_def)
qed

lemma spot_after_horizon_fast:
  assumes "spot_from_horizon hol ccy h = Some (Inr s)" "ccy \<in> set fast_pairs"
  shows "h < s"
  using assms
  by (auto simp: spot_from_horizon_def next_valid_spot_walk walk_fwd_Inr nearest_after_def
      split: sum.splits if_splits)

text \<open>
  C3, amended. \<open>horizon_from_spot\<close> fails with the assertion on a date that is no valid
  spot. On the spot \<open>s\<close> of a horizon \<open>h\<close>: for a fast-settling pair it returns \<open>h\<close>
  exactly when \<open>h\<close> is a valid expiry and no valid expiry lies strictly between \<open>h\<close> and
  \<open>s\<close>; for any other pair, with \<open>b\<close> the next business day after \<open>h\<close>, it returns \<open>h\<close>
  when \<open>h\<close> is a valid expiry, no valid expiry lies strictly between \<open>h\<close> and \<open>b\<close>, and no
  business day lies strictly between \<open>b\<close> and \<open>s\<close>.
\<close>

theorem horizon_from_spot_roundtrip:
  "(is_valid_spot hol ccy s = Inr False
      \<longrightarrow> horizon_from_spot hol ccy s = Some (Inl (AssertionError ''Spot date is not valid!'')))
   \<and> (ccy \<in> {''USDCAD'', ''USDTRY'', ''USDPHP'', ''USDRUB''}
        \<and> spot_from_horizon hol ccy h = Some (Inr s)
      \<longrightarrow> (horizon_from_spot hol ccy s = Some (Inr h)
            \<longleftrightarrow> is_valid_expiry hol ccy h = Inr True
                \<and> (\<forall>x. h < x \<and> x < s \<longrightarrow> is_valid_expiry hol ccy x = Inr False)))
   \<and> (ccy \<notin> {''USDCAD'', ''USDTRY'', ''USDPHP'', ''USDRUB''}
        \<and> nearest_after (is_business_day hol ccy) h b
        \<and> spot_from_horizon hol ccy h = Some (Inr s)
        \<and> is_valid_expiry hol ccy h = Inr True
        \<and> (\<forall>x. h < x \<and> x < b \<longrightarrow> is_valid_expiry hol ccy x = Inr False)
        \<and> (\<forall>x. b < x \<and> x < s \<longrightarrow> is_business_day hol ccy x = Inr False)
      \<longrightarrow> horizon_from_spot hol ccy s = Some (Inr h))"
proof (intro conjI impI)
  assume "is_valid_spot hol ccy s = Inr False"
  then show "horizon_from_spot hol ccy s = Some (Inl (AssertionError ''Spot date is not valid!''))"
    by (rule horizon_from_spot_assert)
next
  assume a: "ccy \<in> {''USDCAD'', ''USDTRY'', ''USDPHP'', ''USDRUB''}
        \<and> spot_from_horizon hol ccy h = Some (Inr s)"
  then have f: "ccy \<in> set fast_pairs" by (simp add: fast_pairs_set)
  from a have v: "is_valid_spot hol ccy s = Inr True" using spot_is_valid by blast
  from a f have "h < s" using spot_after_horizon_fast by blast
  then show "horizon_from_spot hol ccy s = Some (Inr h)
            \<longleftrightarrow> is_valid_expiry hol ccy h = Inr True
                \<and> (\<forall>x. h < x \<and> x < s \<longrightarrow> is_valid_expiry hol ccy x = Inr False)"
    by (simp add: horizon_from_spot_fast [OF v f] nearest_before_def)
next
  assume a: "ccy \<notin> {''USDCAD'', ''USDTRY'', ''USDPHP'', ''USDRUB''}
        \<and> nearest_after (is_business_day hol ccy) h b
        \<and> spot_from_horizon hol ccy h = Some (Inr s)
        \<and> is_valid_expiry hol ccy h = Inr True
        \<and> (\<forall>x. h < x \<and> x < b \<longrightarrow> is_valid_expiry hol ccy x = Inr False)
        \<and> (\<forall>x. b < x \<and> x < s \<longrightarrow> is_business_day hol ccy x = Inr False)"
  then have f: "ccy \<notin> set fast_pairs" by (simp add: fast_pairs_set)
  from a have v: "is_valid_spot hol ccy s = Inr True" using spot_is_valid by blast
  from a have bd: "is_business_day hol ccy h = Inr True"
    by (auto simp: spot_from_horizon_def split: sum.splits if_splits)
  from a obtain b' where b': "nearest_after (is_business_day hol ccy) h b'"
      "nearest_after (is_valid_spot hol ccy) b' s"
    using spot_from_horizon_standard [OF bd f] by blast
  with a have "b' = b" using nearest_after_unique by blast
  with b' a have "nearest_before (is_business_day hol ccy) s b"
    by (simp add: nearest_before_def nearest_after_def)
  moreover from a have "nearest_before (is_valid_expiry hol ccy) b h"
    by (simp add: nearest_before_def nearest_after_def)
  ultimately show "horizon_from_spot hol ccy s = Some (Inr h)"
    using horizon_from_spot_standard [OF v f] by blast
qed

theorem horizon_from_spot_roundtrip_witness:
  "spot_from_horizon no_holidays ''EURUSD'' 735395 = Some (Inr 735397)
   \<and> horizon_from_spot no_holidays ''EURUSD'' 735397 = Some (Inr 735395)
   \<and> spot_from_horizon no_holidays ''USDCAD'' 735395 = Some (Inr 735396)
   \<and> horizon_from_spot no_holidays ''USDCAD'' 735396 = Some (Inr 735395)
   \<and> is_valid_spot no_holidays ''EURUSD'' 735398 = Inr False
   \<and> horizon_from_spot no_holidays ''EURUSD'' 735398
       = Some (Inl (AssertionError ''Spot date is not valid!''))"
proof -
  have s1: "spot_from_horizon no_holidays ''EURUSD'' 735395 = Some (Inr 735397)"
    and s2: "spot_from_horizon no_holidays ''USDCAD'' 735395 = Some (Inr 735396)"
    by (simp_all add: spot_from_horizon_def fast_pairs_def bind_res_def walk_simps
        pair_simps day_simps)
  have n: "nearest_after (is_business_day no_holidays ''EURUSD'') 735395 735396"
    using nearest_after_next [of "is_business_day no_holidays ''EURUSD''" 735395]
    by (simp add: pair_simps day_simps)
  have e: "is_valid_expiry no_holidays ''EURUSD'' 735395 = Inr True"
    "is_valid_expiry no_holidays ''USDCAD'' 735395 = Inr True"
    by (simp_all add: pair_simps day_simps date_simps)
  have g1: "\<forall>x::int. 735395 < x \<and> x < 735396 \<longrightarrow> is_valid_expiry no_holidays ''EURUSD'' x = Inr False"
    and g2: "\<forall>x::int. 735396 < x \<and> x < 735397 \<longrightarrow> is_business_day no_holidays ''EURUSD'' x = Inr False"
    and g3: "\<forall>x::int. 735395 < x \<and> x < 735396 \<longrightarrow> is_valid_expiry no_holidays ''USDCAD'' x = Inr False"
    by auto
  have v: "is_valid_spot no_holidays ''EURUSD'' 735398 = Inr False"
    by (simp add: pair_simps day_simps)
  have "horizon_from_spot no_holidays ''EURUSD'' 735397 = Some (Inr 735395)"
    using horizon_from_spot_roundtrip [of no_holidays "''EURUSD''" 735397 735395 735396]
      s1 n e g1 g2 by simp
  moreover have "horizon_from_spot no_holidays ''USDCAD'' 735396 = Some (Inr 735395)"
    using horizon_from_spot_roundtrip [of no_holidays "''USDCAD''" 735396 735395 0]
      s2 e g3 by simp
  moreover have "horizon_from_spot no_holidays ''EURUSD'' 735398
       = Some (Inl (AssertionError ''Spot date is not valid!''))"
    using horizon_from_spot_roundtrip [of no_holidays "''EURUSD''" 735398 0 0] v by simp
  ultimately show ?thesis using s1 s2 v by simp
qed

section \<open>Tenor resolution\<close>

lemma expiry_from_tenor_ON:
  "expiry_from_tenor hol ccy h ''ON'' = next_valid_expiry hol ccy h"
  by (simp add: expiry_from_tenor_def)

lemma expiry_from_tenor_D:
  assumes "tenor \<noteq> []" "last tenor = CHR ''D''"
  shows "expiry_from_tenor hol ccy h tenor =
           (case py_int (butlast tenor) of
              None \<Rightarrow> Some (Inl ValueError)
            | Some n \<Rightarrow> snap_forward hol ccy (h + n))"
proof -
  from assms have "tenor \<noteq> ''ON''" by auto
  with assms show ?thesis by (simp add: expiry_from_tenor_def)
qed

lemma expiry_from_tenor_W:
  assumes "tenor \<noteq> []" "last tenor = CHR ''W''"
  shows "expiry_from_tenor hol ccy h tenor =
           (case py_int (butlast tenor) of
              None \<Rightarrow> Some (Inl ValueError)
            | Some n \<Rightarrow> snap_forward hol ccy (h + n * 7))"
proof -
  from assms have "tenor \<noteq> ''ON''" by auto
  with assms show ?thesis by (simp add: expiry_from_tenor_def)
qed

lemma expiry_from_tenor_MY:
  assumes "tenor \<noteq> []" "last tenor = CHR ''M'' \<or> last tenor = CHR ''Y''"
  shows "expiry_from_tenor hol ccy h tenor =
           (case py_int (butlast tenor) of
              None \<Rightarrow> Some (Inl ValueError)
            | Some n \<Rightarrow>
                bind_res (delivery_from_horizon hol ccy h
                            (if last tenor = CHR ''M'' then n else n * 12))
                  (\<lambda>(spot_date, delivery_date).
                     bind_res (horizon_from_spot hol ccy delivery_date)
                       (\<lambda>expiry. snap_backward hol ccy expiry)))"
proof -
  from assms have "tenor \<noteq> ''ON''" by auto
  with assms show ?thesis
    by (auto simp: expiry_from_tenor_def Let_def split: option.splits)
qed

lemma expiry_from_tenor_other:
  assumes "tenor \<noteq> []" "tenor \<noteq> ''ON''"
    "last tenor \<notin> {CHR ''D'', CHR ''W'', CHR ''M'', CHR ''Y''}"
  shows "expiry_from_tenor hol ccy h tenor = Some (Inl (InputError tenor_message))"
  using assms by (simp add: expiry_from_tenor_def)

lemma delivery_assert:
  assumes "is_business_day hol ccy h = Inr False"
  shows "delivery_from_horizon hol ccy h n
           = Some (Inl (AssertionError ''Horizon date is not a business day!''))"
  by (simp add: delivery_from_horizon_def spot_from_horizon_assert [OF assms] bind_res_def)

lemma is_valid_expiry_total:
  "constructible ccy \<Longrightarrow> \<exists>b. is_valid_expiry hol ccy d = Inr b"
  by (simp add: is_valid_expiry_constructible)

lemma next_valid_expiry_no_error:
  assumes "constructible ccy"
  shows "next_valid_expiry hol ccy d \<noteq> Some (Inl e)"
proof
  assume "next_valid_expiry hol ccy d = Some (Inl e)"
  then obtain x where "is_valid_expiry hol ccy x = Inl e"
    unfolding next_valid_expiry_walk using walk_Inl by blast
  with is_valid_expiry_total [OF assms, of hol x] show False by auto
qed

lemma snap_forward_no_error:
  assumes "constructible ccy"
  shows "snap_forward hol ccy d \<noteq> Some (Inl e)"
  using is_valid_expiry_total [OF assms, of hol d] next_valid_expiry_no_error [OF assms, of hol d e]
  by (auto simp: snap_forward_def split: if_splits)

lemma snap_forward_Inr:
  "snap_forward hol ccy d = Some (Inr r) \<longleftrightarrow>
     (is_valid_expiry hol ccy d = Inr True \<and> r = d)
     \<or> (is_valid_expiry hol ccy d = Inr False \<and> nearest_after (is_valid_expiry hol ccy) d r)"
  by (auto simp: snap_forward_def next_valid_expiry_walk walk_fwd_Inr split: sum.splits)

section \<open>The claims about tenor resolution\<close>

text \<open>
  C9. The claim: every tenor that is not \<open>ON\<close> or a positive integer followed by one of
  D, W, M, Y fails with a parse error naming the string. The integer is passed to
  \<open>int\<close> and not checked further: \<open>0D\<close> returns the horizon itself and \<open>-3D\<close> a date
  before the horizon.
\<close>

theorem tenor_not_validated_counterexample:
  "expiry_from_tenor no_holidays ''EURUSD'' 735596 ''0D'' = Some (Inr 735596)
   \<and> expiry_from_tenor no_holidays ''EURUSD'' 735596 ''-3D'' = Some (Inr 735593)"
  by (simp add: expiry_from_tenor_D py_int_examples snap_forward_def
      pair_simps day_simps date_simps)

text \<open>
  C9, amended. \<open>expiry_from_tenor\<close> fails, and returns no date, on every tenor that is
  not \<open>ON\<close> and is not an integer literal of \<open>int\<close> (of either sign, or zero) followed by
  one of D, W, M, Y: with \<open>InputError\<close> and its fixed message when the tenor is not empty
  and ends in another character, with \<open>IndexError\<close> when it is empty, with \<open>ValueError\<close>
  when \<open>int\<close> rejects what precedes the unit.
\<close>

theorem expiry_from_tenor_malformed:
  "(tenor \<noteq> [] \<and> tenor \<noteq> ''ON''
      \<and> last tenor \<notin> {CHR ''D'', CHR ''W'', CHR ''M'', CHR ''Y''}
    \<longrightarrow> expiry_from_tenor hol ccy h tenor = Some (Inl (InputError tenor_message)))
   \<and> (tenor = [] \<longrightarrow> expiry_from_tenor hol ccy h tenor = Some (Inl IndexError))
   \<and> (tenor \<noteq> [] \<and> last tenor \<in> {CHR ''D'', CHR ''W'', CHR ''M'', CHR ''Y''}
        \<and> py_int (butlast tenor) = None
      \<longrightarrow> expiry_from_tenor hol ccy h tenor = Some (Inl ValueError))"
proof (intro conjI impI)
  assume "tenor \<noteq> [] \<and> tenor \<noteq> ''ON''
      \<and> last tenor \<notin> {CHR ''D'', CHR ''W'', CHR ''M'', CHR ''Y''}"
  then show "expiry_from_tenor hol ccy h tenor = Some (Inl (InputError tenor_message))"
    using expiry_from_tenor_other by blast
next
  assume "tenor = []"
  then show "expiry_from_tenor hol ccy h tenor = Some (Inl IndexError)"
    by (simp add: expiry_from_tenor_def)
next
  assume a: "tenor \<noteq> [] \<and> last tenor \<in> {CHR ''D'', CHR ''W'', CHR ''M'', CHR ''Y''}
        \<and> py_int (butlast tenor) = None"
  then consider "last tenor = CHR ''D''" | "last tenor = CHR ''W''"
    | "last tenor = CHR ''M'' \<or> last tenor = CHR ''Y''" by auto
  then show "expiry_from_tenor hol ccy h tenor = Some (Inl ValueError)"
  proof cases
    case 1 with a show ?thesis by (simp add: expiry_from_tenor_D)
  next
    case 2 with a show ?thesis by (simp add: expiry_from_tenor_W)
  next
    case 3 with a show ?thesis by (simp add: expiry_from_tenor_MY)
  qed
qed

theorem expiry_from_tenor_malformed_witness:
  "expiry_from_tenor no_holidays ''EURUSD'' 735596 ''5X'' = Some (Inl (InputError tenor_message))
   \<and> expiry_from_tenor no_holidays ''EURUSD'' 735596 [] = Some (Inl IndexError)
   \<and> py_int ''X'' = None
   \<and> expiry_from_tenor no_holidays ''EURUSD'' 735596 ''XD'' = Some (Inl ValueError)"
  using expiry_from_tenor_malformed [of "''5X''" no_holidays "''EURUSD''" 735596]
    expiry_from_tenor_malformed [of "[]" no_holidays "''EURUSD''" 735596]
    expiry_from_tenor_malformed [of "''XD''" no_holidays "''EURUSD''" 735596]
  by (simp add: py_int_examples)

text \<open>
  C10. For a tenor in months or years, \<open>expiry_from_tenor\<close> fails with the assertion of
  \<open>spot_from_horizon\<close> when the horizon is no business day. For \<open>ON\<close> and for a tenor in
  days or weeks the horizon is never tested: the result is the nearest valid expiry
  after the horizon (for \<open>ON\<close>), or the horizon moved by the days of the tenor, if that is
  a valid expiry, and otherwise the nearest valid expiry after it; on a constructible
  pair these tenors raise nothing.
\<close>

theorem expiry_from_tenor_precondition:
  "(is_business_day hol ccy h = Inr False \<and> tenor \<noteq> []
      \<and> (last tenor = CHR ''M'' \<or> last tenor = CHR ''Y'')
      \<and> py_int (butlast tenor) = Some n
    \<longrightarrow> expiry_from_tenor hol ccy h tenor
          = Some (Inl (AssertionError ''Horizon date is not a business day!'')))
   \<and> (expiry_from_tenor hol ccy h ''ON'' = Some (Inr r)
        \<longleftrightarrow> nearest_after (is_valid_expiry hol ccy) h r)
   \<and> (tenor \<noteq> [] \<and> last tenor = CHR ''D'' \<and> py_int (butlast tenor) = Some n
      \<longrightarrow> (expiry_from_tenor hol ccy h tenor = Some (Inr r)
            \<longleftrightarrow> (is_valid_expiry hol ccy (h + n) = Inr True \<and> r = h + n)
                \<or> (is_valid_expiry hol ccy (h + n) = Inr False
                    \<and> nearest_after (is_valid_expiry hol ccy) (h + n) r)))
   \<and> (tenor \<noteq> [] \<and> last tenor = CHR ''W'' \<and> py_int (butlast tenor) = Some n
      \<longrightarrow> (expiry_from_tenor hol ccy h tenor = Some (Inr r)
            \<longleftrightarrow> (is_valid_expiry hol ccy (h + n * 7) = Inr True \<and> r = h + n * 7)
                \<or> (is_valid_expiry hol ccy (h + n * 7) = Inr False
                    \<and> nearest_after (is_valid_expiry hol ccy) (h + n * 7) r)))
   \<and> (constructible ccy
        \<and> (tenor = ''ON''
            \<or> (tenor \<noteq> [] \<and> (last tenor = CHR ''D'' \<or> last tenor = CHR ''W'')
                \<and> py_int (butlast tenor) = Some n))
      \<longrightarrow> expiry_from_tenor hol ccy h tenor \<noteq> Some (Inl e))"
proof (intro conjI impI)
  assume a: "is_business_day hol ccy h = Inr False \<and> tenor \<noteq> []
      \<and> (last tenor = CHR ''M'' \<or> last tenor = CHR ''Y'')
      \<and> py_int (butlast tenor) = Some n"
  then have "expiry_from_tenor hol ccy h tenor =
      bind_res (delivery_from_horizon hol ccy h (if last tenor = CHR ''M'' then n else n * 12))
        (\<lambda>(spot_date, delivery_date).
           bind_res (horizon_from_spot hol ccy delivery_date)
             (\<lambda>expiry. snap_backward hol ccy expiry))"
    by (simp add: expiry_from_tenor_MY)
  with a show "expiry_from_tenor hol ccy h tenor
          = Some (Inl (AssertionError ''Horizon date is not a business day!''))"
    by (simp add: delivery_assert bind_res_def)
next
  show "expiry_from_tenor hol ccy h ''ON'' = Some (Inr r)
        \<longleftrightarrow> nearest_after (is_valid_expiry hol ccy) h r"
    by (simp add: expiry_from_tenor_ON next_valid_expiry_walk walk_fwd_Inr)
next
  assume "tenor \<noteq> [] \<and> last tenor = CHR ''D'' \<and> py_int (butlast tenor) = Some n"
  then show "expiry_from_tenor hol ccy h tenor = Some (Inr r)
            \<longleftrightarrow> (is_valid_expiry hol ccy (h + n) = Inr True \<and> r = h + n)
                \<or> (is_valid_expiry hol ccy (h + n) = Inr False
                    \<and> nearest_after (is_valid_expiry hol ccy) (h + n) r)"
    by (simp add: expiry_from_tenor_D snap_forward_Inr)
next
  assume "tenor \<noteq> [] \<and> last tenor = CHR ''W'' \<and> py_int (butlast tenor) = Some n"
  then show "expiry_from_tenor hol ccy h tenor = Some (Inr r)
            \<longleftrightarrow> (is_valid_expiry hol ccy (h + n * 7) = Inr True \<and> r = h + n * 7)
                \<or> (is_valid_expiry hol ccy (h + n * 7) = Inr False
                    \<and> nearest_after (is_valid_expiry hol ccy) (h + n * 7) r)"
    by (simp add: expiry_from_tenor_W snap_forward_Inr)
next
  assume a: "constructible ccy
        \<and> (tenor = ''ON''
            \<or> (tenor \<noteq> [] \<and> (last tenor = CHR ''D'' \<or> last tenor = CHR ''W'')
                \<and> py_int (butlast tenor) = Some n))"
  then have c: "constructible ccy" by simp
  from a consider "tenor = ''ON''"
    | "tenor \<noteq> []" "last tenor = CHR ''D''" "py_int (butlast tenor) = Some n"
    | "tenor \<noteq> []" "last tenor = CHR ''W''" "py_int (butlast tenor) = Some n"
    by blast
  then show "expiry_from_tenor hol ccy h tenor \<noteq> Some (Inl e)"
  proof cases
    case 1
    then show ?thesis
      using next_valid_expiry_no_error [OF c, of hol h e] by (simp add: expiry_from_tenor_ON)
  next
    case 2
    then show ?thesis
      using snap_forward_no_error [OF c, of hol "h + n" e] by (simp add: expiry_from_tenor_D)
  next
    case 3
    then show ?thesis
      using snap_forward_no_error [OF c, of hol "h + n * 7" e]
      by (simp add: expiry_from_tenor_W)
  qed
qed

theorem expiry_from_tenor_precondition_witness:
  "is_business_day no_holidays ''EURUSD'' 735601 = Inr False
   \<and> expiry_from_tenor no_holidays ''EURUSD'' 735601 ''1M''
       = Some (Inl (AssertionError ''Horizon date is not a business day!''))
   \<and> expiry_from_tenor no_holidays ''EURUSD'' 735601 ''ON'' = Some (Inr 735603)
   \<and> expiry_from_tenor no_holidays ''EURUSD'' 735601 ''1D'' = Some (Inr 735603)
   \<and> expiry_from_tenor no_holidays ''EURUSD'' 735601 ''1W'' = Some (Inr 735610)
   \<and> expiry_from_tenor no_holidays ''EURUSD'' 735601 ''1D'' \<noteq> Some (Inl ValueError)"
proof -
  note t = expiry_from_tenor_precondition [where hol = no_holidays and ccy = "''EURUSD''"
      and h = 735601 and n = 1]
  have b: "is_business_day no_holidays ''EURUSD'' 735601 = Inr False"
    by (simp add: pair_simps day_simps)
  have c: "constructible ''EURUSD''" by (rule constructible_examples)
  have n1: "nearest_after (is_valid_expiry no_holidays ''EURUSD'') 735601 735603"
    and n2: "nearest_after (is_valid_expiry no_holidays ''EURUSD'') 735602 735603"
    and n3: "nearest_after (is_valid_expiry no_holidays ''EURUSD'') 735608 735610"
    unfolding walk_fwd_Inr [symmetric] next_valid_expiry_walk [symmetric]
    by (simp_all add: walk_simps pair_simps day_simps date_simps)
  have e: "is_valid_expiry no_holidays ''EURUSD'' 735602 = Inr False"
    "is_valid_expiry no_holidays ''EURUSD'' 735608 = Inr False"
    by (simp_all add: pair_simps day_simps)
  have m: "expiry_from_tenor no_holidays ''EURUSD'' 735601 ''1M''
       = Some (Inl (AssertionError ''Horizon date is not a business day!''))"
    using t [where tenor = "''1M''" and r = 0 and e = ValueError] b
    by (simp add: py_int_examples)
  have o: "expiry_from_tenor no_holidays ''EURUSD'' 735601 ''ON'' = Some (Inr 735603)"
    using t [where tenor = "''ON''" and r = 735603 and e = ValueError] n1 by simp
  have d: "expiry_from_tenor no_holidays ''EURUSD'' 735601 ''1D'' = Some (Inr 735603)"
    using t [where tenor = "''1D''" and r = 735603 and e = ValueError] n2 e
    by (simp add: py_int_examples)
  have w: "expiry_from_tenor no_holidays ''EURUSD'' 735601 ''1W'' = Some (Inr 735610)"
    using t [where tenor = "''1W''" and r = 735610 and e = ValueError] n3 e
    by (simp add: py_int_examples)
  have v: "expiry_from_tenor no_holidays ''EURUSD'' 735601 ''1D'' \<noteq> Some (Inl ValueError)"
    using t [where tenor = "''1D''" and r = 0 and e = ValueError] c
    by (simp add: py_int_examples)
  from b m o d w v show ?thesis by simp
qed

text \<open>What the loop establishes when it is left: the difference of the month numbers,
  not the distance in months.\<close>

lemma roll_back_exit:
  assumes "roll_back hol ccy spot n d = Some (Inr r)"
  shows "month_of r - month_of spot \<le> n"
proof -
  have "\<forall>r. Inr r = y \<longrightarrow> month_of r - month_of spot \<le> n"
    if "roll_back hol ccy spot n d = Some y" for y
  proof (rule roll_back.raw_induct
      [where P = "\<lambda>hol ccy spot n d y. \<forall>r. Inr r = y \<longrightarrow> month_of r - month_of spot \<le> n",
        OF _ that])
    fix f :: "calendar \<Rightarrow> string \<Rightarrow> date \<Rightarrow> int \<Rightarrow> date \<Rightarrow> date res"
      and hol ccy spot n d y
    assume IH: "\<And>hol ccy spot n d y. f hol ccy spot n d = Some y \<Longrightarrow>
        \<forall>r. Inr r = y \<longrightarrow> month_of r - month_of spot \<le> n"
    assume eq: "(if n < month_of d - month_of spot
         then Option.bind (prev_valid_spot hol ccy d)
                (\<lambda>r. case r of Inl e \<Rightarrow> Some (Inl e) | Inr d' \<Rightarrow> f hol ccy spot n d')
         else Some (Inr d)) = Some y"
    show "\<forall>r. Inr r = y \<longrightarrow> month_of r - month_of spot \<le> n"
    proof (cases "n < month_of d - month_of spot")
      case False
      with eq show ?thesis by auto
    next
      case True
      with eq obtain x where x: "prev_valid_spot hol ccy d = Some x"
        "(case x of Inl e \<Rightarrow> Some (Inl e) | Inr d' \<Rightarrow> f hol ccy spot n d') = Some y"
        by (auto simp: bind_eq_Some_conv)
      show ?thesis
      proof (cases x)
        case (Inl e)
        with x show ?thesis by auto
      next
        case (Inr d')
        with x have "f hol ccy spot n d' = Some y" by simp
        then show ?thesis by (rule IH)
      qed
    qed
  qed
  with assms show ?thesis by blast
qed

lemma delivery_month_numbers:
  assumes "delivery_from_horizon hol ccy h n = Some (Inr (spot, delivery))"
  shows "month_of delivery - month_of spot \<le> n"
proof -
  from assms obtain d where "roll_back hol ccy spot n d = Some (Inr delivery)"
    by (auto simp: delivery_from_horizon_def bind_res_Inr Let_def)
  then show ?thesis by (rule roll_back_exit)
qed

text \<open>
  C1. The claim: the delivery date that \<open>expiry_from_tenor\<close> settles on is at most \<open>n\<close>
  months after the spot date, also across the end of a year. For EURUSD, the horizon
  Monday 29 December 2014 and the tenor \<open>1M\<close>, the spot is 31 December 2014; one month
  later is Saturday 31 January 2015, the next valid spot is Monday 2 February, and the
  loop, which compares the month numbers 2 and 12, does not step back: the delivery date
  is two months after the spot.
\<close>

theorem delivery_rolls_past_the_month:
  "is_business_day no_holidays ''EURUSD'' 735596 = Inr True
   \<and> delivery_from_horizon no_holidays ''EURUSD'' 735596 1 = Some (Inr (735598, 735631))
   \<and> year_of 735598 = 2014 \<and> month_of 735598 = 12 \<and> day_of 735598 = 31
   \<and> year_of 735631 = 2015 \<and> month_of 735631 = 2 \<and> day_of 735631 = 2
   \<and> months_between 735598 735631 = 2
   \<and> expiry_from_tenor no_holidays ''EURUSD'' 735596 ''1M'' = Some (Inr 735627)"
proof -
  have b: "is_business_day no_holidays ''EURUSD'' 735596 = Inr True"
    by (simp add: pair_simps day_simps)
  have s: "spot_from_horizon no_holidays ''EURUSD'' 735596 = Some (Inr 735598)"
    by (simp add: spot_from_horizon_def fast_pairs_def bind_res_def walk_simps
        pair_simps day_simps)
  have n: "next_valid_spot no_holidays ''EURUSD'' 735629 = Some (Inr 735631)"
    by (simp add: walk_simps pair_simps day_simps)
  have r: "roll_back no_holidays ''EURUSD'' 735598 1 735631 = Some (Inr 735631)"
    by (subst roll_back.simps) (simp add: date_simps)
  have d: "delivery_from_horizon no_holidays ''EURUSD'' 735596 1 = Some (Inr (735598, 735631))"
    by (simp add: delivery_from_horizon_def s add_months_example n r bind_res_def
        pair_simps day_simps)
  have h: "horizon_from_spot no_holidays ''EURUSD'' 735631 = Some (Inr 735627)"
    by (simp add: horizon_from_spot_def fast_pairs_def bind_res_def walk_simps
        pair_simps day_simps date_simps)
  have e: "expiry_from_tenor no_holidays ''EURUSD'' 735596 ''1M'' = Some (Inr 735627)"
    by (simp add: expiry_from_tenor_MY py_int_examples d h bind_res_def snap_backward_def
        pair_simps day_simps date_simps)
  have m: "months_between 735598 735631 = 2"
    by (simp add: months_between_def date_simps)
  from b d e m show ?thesis by (simp add: date_simps)
qed

end
